theory Spec2Isabelle
  imports Main "HOL-Library.Word"
begin

section \<open>JavaScript strings\<close>

text \<open>
  A JavaScript string is a sequence of 16-bit code units. String literals of the source
  are written \<open>js ''...''\<close>; the apostrophe is written as the code unit \<open>0x27\<close>.
\<close>

type_synonym codeunit = "16 word"
type_synonym jsstring = "codeunit list"

definition js :: "string \<Rightarrow> jsstring" where
  "js cs = map of_char cs"

text \<open>\<open>s.startsWith(p)\<close>.\<close>

definition startsWith :: "jsstring \<Rightarrow> jsstring \<Rightarrow> bool" where
  "startsWith s p = (take (length p) s = p)"

text \<open>
  The exceptions that can reach the \<open>catch\<close> of \<open>updateFromUrlHash\<close>: \<open>URIError\<close> is thrown by
  \<open>encodeURI\<close> and \<open>decodeURIComponent\<close>; \<open>HashFormError\<close> is the
  \<open>new Error('URL hash is expected to be of the form ...')\<close> of line 172; the others are
  raised by the collaborators (\<open>urlSafeParse\<close>, \<open>verifyObject\<close>, \<open>restoreState\<close>,
  \<open>parseSpecialUrl\<close>).
\<close>

datatype error = URIError | HashFormError | SyntaxError | VerifyError | RestoreError | SpecialUrlError

definition prepend :: "'a list \<Rightarrow> error + 'a list \<Rightarrow> error + 'a list" where
  "prepend xs r = (case r of Inl e \<Rightarrow> Inl e | Inr ys \<Rightarrow> Inr (xs @ ys))"

section \<open>The built-ins \<open>encodeURI\<close> and \<open>decodeURIComponent\<close> (ECMAScript, URI handling)\<close>

definition isLeadingSurrogate :: "codeunit \<Rightarrow> bool" where
  "isLeadingSurrogate c = (0xD800 \<le> c \<and> c \<le> 0xDBFF)"

definition isTrailingSurrogate :: "codeunit \<Rightarrow> bool" where
  "isTrailingSurrogate c = (0xDC00 \<le> c \<and> c \<le> 0xDFFF)"

definition UTF16SurrogatePairToCodePoint :: "codeunit \<Rightarrow> codeunit \<Rightarrow> nat" where
  "UTF16SurrogatePairToCodePoint lead trail =
     (unat lead - 0xD800) * 0x400 + (unat trail - 0xDC00) + 0x10000"

definition UTF16EncodeCodePoint :: "nat \<Rightarrow> jsstring" where
  "UTF16EncodeCodePoint cp =
     (if cp \<le> 0xFFFF then [of_nat cp]
      else [of_nat ((cp - 0x10000) div 0x400 + 0xD800), of_nat ((cp - 0x10000) mod 0x400 + 0xDC00)])"

text \<open>The UTF-8 transformation of a code point into octets.\<close>

definition utf8Octets :: "nat \<Rightarrow> nat list" where
  "utf8Octets cp =
     (if cp < 0x80 then [cp]
      else if cp < 0x800 then [0xC0 + cp div 0x40, 0x80 + cp mod 0x40]
      else if cp < 0x10000 then
        [0xE0 + cp div 0x1000, 0x80 + cp div 0x40 mod 0x40, 0x80 + cp mod 0x40]
      else
        [0xF0 + cp div 0x40000, 0x80 + cp div 0x1000 mod 0x40,
         0x80 + cp div 0x40 mod 0x40, 0x80 + cp mod 0x40])"

definition hexDigit :: "nat \<Rightarrow> codeunit" where
  "hexDigit d = (if d < 10 then of_nat (0x30 + d) else of_nat (0x37 + d))"

text \<open>One octet as \<open>%XX\<close>, uppercase, two digits.\<close>

definition pctOctet :: "nat \<Rightarrow> jsstring" where
  "pctOctet b = [0x25, hexDigit (b div 16), hexDigit (b mod 16)]"

definition isAlnum :: "codeunit \<Rightarrow> bool" where
  "isAlnum c = ((0x41 \<le> c \<and> c \<le> 0x5A) \<or> (0x61 \<le> c \<and> c \<le> 0x7A) \<or> (0x30 \<le> c \<and> c \<le> 0x39))"

text \<open>The characters \<open>encodeURI\<close> leaves alone: letters, digits, \<open>-_.!~*'()\<close> and \<open>;/?:@&=+$,#\<close>.\<close>

definition uriUnescaped :: "codeunit \<Rightarrow> bool" where
  "uriUnescaped c = (isAlnum c \<or> c \<in> set (js ''-_.!~*()'') \<or> c = 0x27)"

definition uriReserved :: "codeunit \<Rightarrow> bool" where
  "uriReserved c = (c \<in> set (js '';/?:@&=+$,''))"

definition encodeURIUnescapedSet :: "codeunit \<Rightarrow> bool" where
  "encodeURIUnescapedSet c = (uriReserved c \<or> uriUnescaped c \<or> c = 0x23)"

text \<open>
  The abstract operation \<open>Encode\<close>: a code unit of the unescaped set is copied; otherwise the
  code point at this position is read (a surrogate pair is one code point, a lone surrogate
  throws \<open>URIError\<close>) and each octet of its UTF-8 form is written as \<open>%XX\<close>.
\<close>

fun Encode :: "(codeunit \<Rightarrow> bool) \<Rightarrow> jsstring \<Rightarrow> error + jsstring" where
  "Encode unescapedSet [] = Inr []"
| "Encode unescapedSet (C # rest) =
     (if unescapedSet C then prepend [C] (Encode unescapedSet rest)
      else if isTrailingSurrogate C then Inl URIError
      else if isLeadingSurrogate C then
        (case rest of
           [] \<Rightarrow> Inl URIError
         | D # rest' \<Rightarrow>
             if isTrailingSurrogate D
             then prepend (concat (map pctOctet (utf8Octets (UTF16SurrogatePairToCodePoint C D))))
                    (Encode unescapedSet rest')
             else Inl URIError)
      else prepend (concat (map pctOctet (utf8Octets (unat C)))) (Encode unescapedSet rest))"

definition encodeURI :: "jsstring \<Rightarrow> error + jsstring" where
  "encodeURI s = Encode encodeURIUnescapedSet s"

definition hexValue :: "codeunit \<Rightarrow> nat option" where
  "hexValue c =
     (if 0x30 \<le> c \<and> c \<le> 0x39 then Some (unat c - 0x30)
      else if 0x41 \<le> c \<and> c \<le> 0x46 then Some (unat c - 0x37)
      else if 0x61 \<le> c \<and> c \<le> 0x66 then Some (unat c - 0x57)
      else None)"

text \<open>\<open>ParseHexOctet\<close> on the two code units that follow a \<open>%\<close>; \<open>None\<close> when they are missing
  or not hexadecimal digits.\<close>

definition ParseHexOctet :: "jsstring \<Rightarrow> nat option" where
  "ParseHexOctet s =
     (case s of
        a # b # _ \<Rightarrow>
          (case hexValue a of
             None \<Rightarrow> None
           | Some x \<Rightarrow> (case hexValue b of None \<Rightarrow> None | Some y \<Rightarrow> Some (16 * x + y)))
      | _ \<Rightarrow> None)"

text \<open>The number of leading 1 bits of an octet.\<close>

definition leadingOnes :: "nat \<Rightarrow> nat" where
  "leadingOnes B =
     (if B < 0x80 then 0 else if B < 0xC0 then 1 else if B < 0xE0 then 2
      else if B < 0xF0 then 3 else if B < 0xF8 then 4 else if B < 0xFC then 5
      else if B < 0xFE then 6 else if B < 0xFF then 7 else 8)"

text \<open>The \<open>j\<close> continuation escapes \<open>%XX\<close> that must follow a multi-octet lead; the octets and
  the rest of the string, or \<open>None\<close> where \<open>Decode\<close> throws.\<close>

fun continuationOctets :: "nat \<Rightarrow> jsstring \<Rightarrow> (nat list \<times> jsstring) option" where
  "continuationOctets 0 s = Some ([], s)"
| "continuationOctets (Suc j) [] = None"
| "continuationOctets (Suc j) (c # rest) =
     (if c \<noteq> 0x25 then None
      else (case ParseHexOctet rest of
              None \<Rightarrow> None
            | Some b \<Rightarrow>
                (case continuationOctets j (drop 2 rest) of
                   None \<Rightarrow> None
                 | Some (bs, r) \<Rightarrow> Some (b # bs, r))))"

definition isContinuation :: "nat \<Rightarrow> bool" where
  "isContinuation b = (0x80 \<le> b \<and> b \<le> 0xBF)"

text \<open>
  The code point of a valid UTF-8 encoding of two to four octets: no overlong form, no
  surrogate, nothing above \<open>0x10FFFF\<close>. \<open>None\<close> where the octets are not valid.
\<close>

definition utf8CodePoint :: "nat list \<Rightarrow> nat option" where
  "utf8CodePoint octets =
     (case octets of
        [b0, b1] \<Rightarrow>
          if 0xC2 \<le> b0 \<and> b0 \<le> 0xDF \<and> isContinuation b1
          then Some ((b0 - 0xC0) * 0x40 + (b1 - 0x80)) else None
      | [b0, b1, b2] \<Rightarrow>
          if 0xE0 \<le> b0 \<and> b0 \<le> 0xEF
             \<and> (if b0 = 0xE0 then 0xA0 else 0x80) \<le> b1 \<and> b1 \<le> (if b0 = 0xED then 0x9F else 0xBF)
             \<and> isContinuation b2
          then Some ((b0 - 0xE0) * 0x1000 + (b1 - 0x80) * 0x40 + (b2 - 0x80)) else None
      | [b0, b1, b2, b3] \<Rightarrow>
          if 0xF0 \<le> b0 \<and> b0 \<le> 0xF4
             \<and> (if b0 = 0xF0 then 0x90 else 0x80) \<le> b1 \<and> b1 \<le> (if b0 = 0xF4 then 0x8F else 0xBF)
             \<and> isContinuation b2 \<and> isContinuation b3
          then Some ((b0 - 0xF0) * 0x40000 + (b1 - 0x80) * 0x1000 + (b2 - 0x80) * 0x40 + (b3 - 0x80))
          else None
      | _ \<Rightarrow> None)"

lemma continuationOctets_length:
  "continuationOctets j s = Some (bs, r) \<Longrightarrow> length r \<le> length s"
proof (induction j s arbitrary: bs r rule: continuationOctets.induct)
  case (1 s)
  then show ?case by simp
next
  case (2 j)
  then show ?case by simp
next
  case (3 j c rest)
  from "3.prems" obtain b bs' where
    b: "ParseHexOctet rest = Some b" and
    rec: "continuationOctets j (drop 2 rest) = Some (bs', r)"
    by (auto split: if_splits option.splits)
  from "3.IH" [OF _ b rec] "3.prems" have "length r \<le> length (drop 2 rest)"
    by (auto split: if_splits)
  then show ?case by simp
qed

text \<open>
  The abstract operation \<open>Decode\<close>. A code unit other than \<open>%\<close> is copied. A \<open>%\<close> must be
  followed by two hexadecimal digits; an octet below \<open>0x80\<close> is the character itself (kept as
  the escape when it is in the preserved set), a lead octet takes its continuation escapes
  and the octets must be valid UTF-8. Every failure is a \<open>URIError\<close>.
\<close>

function Decode :: "(codeunit \<Rightarrow> bool) \<Rightarrow> jsstring \<Rightarrow> error + jsstring" where
  "Decode preserveEscapeSet [] = Inr []"
| "Decode preserveEscapeSet (C # rest) =
     (if C \<noteq> 0x25 then prepend [C] (Decode preserveEscapeSet rest)
      else
        (case ParseHexOctet rest of
           None \<Rightarrow> Inl URIError
         | Some B \<Rightarrow>
             if leadingOnes B = 0 then
               prepend (if preserveEscapeSet (of_nat B) then C # take 2 rest else [of_nat B])
                 (Decode preserveEscapeSet (drop 2 rest))
             else if leadingOnes B = 1 \<or> leadingOnes B > 4 then Inl URIError
             else
               (case continuationOctets (leadingOnes B - 1) (drop 2 rest) of
                  None \<Rightarrow> Inl URIError
                | Some (octets, rest') \<Rightarrow>
                    (case utf8CodePoint (B # octets) of
                       None \<Rightarrow> Inl URIError
                     | Some V \<Rightarrow>
                         prepend (UTF16EncodeCodePoint V) (Decode preserveEscapeSet rest')))))"
  by pat_completeness auto
termination
proof (relation "measure (\<lambda>(p, s). length s)", goal_cases)
  case 1
  then show ?case by simp
next
  case (2 p C rest)
  then show ?case by simp
next
  case (3 p C rest B)
  then show ?case by simp
next
  case (4 p C rest B x octets rest')
  then have "length rest' \<le> length (drop 2 rest)"
    using continuationOctets_length by metis
  then show ?case by simp
qed

definition decodeURIComponent :: "jsstring \<Rightarrow> error + jsstring" where
  "decodeURIComponent s = Decode (\<lambda>c. False) s"

section \<open>\<open>encodeFragment\<close> (lines 34-38)\<close>

text \<open>\<open>Number.prototype.toString(16)\<close> followed by \<open>toUpperCase()\<close>, on a char code.\<close>

fun toString16Upper :: "nat \<Rightarrow> jsstring" where
  "toString16Upper n =
     (if n < 16 then [hexDigit n] else toString16Upper (n div 16) @ [hexDigit (n mod 16)])"

text \<open>The callback of the \<open>replace\<close>: what one code unit becomes under \<open>/[!'()*;,]/g\<close>.\<close>

definition escapeExtra :: "codeunit \<Rightarrow> jsstring" where
  "escapeExtra c =
     (if c \<in> set (js ''!()*;,'') \<or> c = 0x27 then 0x25 # toString16Upper (unat c) else [c])"

definition encodeFragment :: "jsstring \<Rightarrow> error + jsstring" where
  "encodeFragment fragment =
     (case encodeURI fragment of
        Inl e \<Rightarrow> Inl e
      | Inr s \<Rightarrow> Inr (concat (map escapeExtra s)))"

text \<open>The code units below \<open>0x80\<close>; an encoded fragment has no other.\<close>

definition isAscii :: "codeunit \<Rightarrow> bool" where
  "isAscii c = (c < 0x80)"

section \<open>The built-in \<open>URLSearchParams\<close> (WHATWG URL, \<open>application/x-www-form-urlencoded\<close>)\<close>

text \<open>The conversion of a string to scalar values: a surrogate pair is one code point, a
  lone surrogate becomes \<open>U+FFFD\<close>.\<close>

fun toScalarValues :: "jsstring \<Rightarrow> nat list" where
  "toScalarValues [] = []"
| "toScalarValues [C] = [if isLeadingSurrogate C \<or> isTrailingSurrogate C then 0xFFFD else unat C]"
| "toScalarValues (C # D # rest) =
     (if isLeadingSurrogate C \<and> isTrailingSurrogate D
      then UTF16SurrogatePairToCodePoint C D # toScalarValues rest
      else (if isLeadingSurrogate C \<or> isTrailingSurrogate C then 0xFFFD else unat C)
             # toScalarValues (D # rest))"

definition utf8Encode :: "nat list \<Rightarrow> nat list" where
  "utf8Encode cps = concat (map utf8Octets cps)"

text \<open>Percent-decoding of a byte sequence: a \<open>%\<close> that two hexadecimal digits do not follow
  stays as it is.\<close>

fun percentDecode :: "nat list \<Rightarrow> nat list" where
  "percentDecode [] = []"
| "percentDecode (b # bs) =
     (if b = 0x25 then
        (case ParseHexOctet (map of_nat (take 2 bs)) of
           Some v \<Rightarrow> v # percentDecode (drop 2 bs)
         | None \<Rightarrow> b # percentDecode bs)
      else b # percentDecode bs)"

text \<open>
  The UTF-8 decoder with replacement. The state is the code point read so far, the number
  of bytes still needed and the bounds of the next byte. \<open>utf8Lead\<close> is a byte read when no
  byte is needed: the code points it emits and the next state.
\<close>

type_synonym utf8state = "nat \<times> nat \<times> nat \<times> nat"

definition utf8Lead :: "nat \<Rightarrow> nat list \<times> utf8state" where
  "utf8Lead b =
     (if b \<le> 0x7F then ([b], (0, 0, 0x80, 0xBF))
      else if 0xC2 \<le> b \<and> b \<le> 0xDF then ([], (b - 0xC0, 1, 0x80, 0xBF))
      else if 0xE0 \<le> b \<and> b \<le> 0xEF then
        ([], (b - 0xE0, 2, if b = 0xE0 then 0xA0 else 0x80, if b = 0xED then 0x9F else 0xBF))
      else if 0xF0 \<le> b \<and> b \<le> 0xF4 then
        ([], (b - 0xF0, 3, if b = 0xF0 then 0x90 else 0x80, if b = 0xF4 then 0x8F else 0xBF))
      else ([0xFFFD], (0, 0, 0x80, 0xBF)))"

fun utf8DecodeFrom :: "utf8state \<Rightarrow> nat list \<Rightarrow> nat list" where
  "utf8DecodeFrom (cp, needed, lower, upper) [] = (if needed \<noteq> 0 then [0xFFFD] else [])"
| "utf8DecodeFrom (cp, needed, lower, upper) (b # bs) =
     (if needed = 0 then
        (case utf8Lead b of (out, st) \<Rightarrow> out @ utf8DecodeFrom st bs)
      else if b < lower \<or> upper < b then
        0xFFFD # (case utf8Lead b of (out, st) \<Rightarrow> out @ utf8DecodeFrom st bs)
      else if needed = 1 then
        (cp * 0x40 + (b - 0x80)) # utf8DecodeFrom (0, 0, 0x80, 0xBF) bs
      else utf8DecodeFrom (cp * 0x40 + (b - 0x80), needed - 1, 0x80, 0xBF) bs)"

text \<open>A name or a value of the query: \<open>+\<close> becomes a space, then percent-decoding, then UTF-8
  decoding, and the code points as a string again.\<close>

definition formDecode :: "nat list \<Rightarrow> jsstring" where
  "formDecode bytes =
     concat (map UTF16EncodeCodePoint
       (utf8DecodeFrom (0, 0, 0x80, 0xBF)
          (percentDecode (map (\<lambda>b. if b = 0x2B then 0x20 else b) bytes))))"

fun strictlySplit :: "'a \<Rightarrow> 'a list \<Rightarrow> 'a list list" where
  "strictlySplit d [] = [[]]"
| "strictlySplit d (x # xs) =
     (if x = d then [] # strictlySplit d xs
      else (case strictlySplit d xs of
              [] \<Rightarrow> [[x]]
            | p # ps \<Rightarrow> (x # p) # ps))"

text \<open>The parser: the sequences between \<open>&\<close>, the empty ones skipped, each split at its first
  \<open>=\<close> into a name and a value.\<close>

definition parseUrlencoded :: "nat list \<Rightarrow> (jsstring \<times> jsstring) list" where
  "parseUrlencoded input =
     map (\<lambda>bytes. (formDecode (takeWhile (\<lambda>b. b \<noteq> 0x3D) bytes),
                   formDecode (drop 1 (dropWhile (\<lambda>b. b \<noteq> 0x3D) bytes))))
       (filter (\<lambda>bytes. bytes \<noteq> []) (strictlySplit 0x26 input))"

text \<open>\<open>new URLSearchParams(init)\<close>: a leading \<open>?\<close> is dropped. The result is the list of
  name-value pairs; \<open>has\<close> and \<open>get\<close> look up the first pair of a name, which is \<open>map_of\<close>.\<close>

definition URLSearchParams :: "jsstring \<Rightarrow> (jsstring \<times> jsstring) list" where
  "URLSearchParams init =
     parseUrlencoded (utf8Encode
       (case toScalarValues init of
          [] \<Rightarrow> []
        | c # cps \<Rightarrow> if c = 0x3F then cps else c # cps))"

section \<open>Regular expressions of the source, as list functions\<close>

text \<open>A \<open>.\<close> of a regular expression matches every code unit but the line terminators.\<close>

definition isLineTerminator :: "codeunit \<Rightarrow> bool" where
  "isLineTerminator c = (c = 0x0A \<or> c = 0x0D \<or> c = 0x2028 \<or> c = 0x2029)"

definition notLineTerminator :: "codeunit \<Rightarrow> bool" where
  "notLineTerminator c = (c \<noteq> 0x0A \<and> c \<noteq> 0x0D \<and> c \<noteq> 0x2028 \<and> c \<noteq> 0x2029)"

text \<open>
  \<open>href.replace(/^.*\?/, '')\<close> (line 107): the greedy \<open>.*\<close> stays on the first line and gives
  back until a \<open>?\<close> follows, so the match ends at the last \<open>?\<close> of the first line; without a
  \<open>?\<close> there the string is unchanged.
\<close>

definition afterLastQuestionMark :: "jsstring \<Rightarrow> jsstring" where
  "afterLastQuestionMark href =
     (let line = takeWhile notLineTerminator href in
      if 0x3F \<in> set line
      then drop (length line - length (takeWhile (\<lambda>c. c \<noteq> 0x3F) (rev line))) href
      else href)"

text \<open>\<open>href.replace(/^[^#]+/, '')\<close> (line 125): everything before the first \<open>#\<close> goes.\<close>

definition fromFirstHash :: "jsstring \<Rightarrow> jsstring" where
  "fromFirstHash href = dropWhile (\<lambda>c. c \<noteq> 0x23) href"

text \<open>
  \<open>s.match(/^#!([a-z][a-z\d+-.]*):\/\//)\<close> (line 133). In the class, \<open>+-.\<close> is the range from
  \<open>+\<close> to \<open>.\<close>, that is \<open>+ , - .\<close>; a \<open>:\<close> is not in the class, so the greedy run of scheme
  characters must be followed by \<open>://\<close>.
\<close>

definition isSchemeStart :: "codeunit \<Rightarrow> bool" where
  "isSchemeStart c = (0x61 \<le> c \<and> c \<le> 0x7A)"

definition isSchemeChar :: "codeunit \<Rightarrow> bool" where
  "isSchemeChar c = (isSchemeStart c \<or> (0x30 \<le> c \<and> c \<le> 0x39) \<or> (0x2B \<le> c \<and> c \<le> 0x2E))"

definition matchesRemoteState :: "jsstring \<Rightarrow> bool" where
  "matchesRemoteState s =
     (case s of
        h # b # c # rest \<Rightarrow>
          h = 0x23 \<and> b = 0x21 \<and> isSchemeStart c
          \<and> startsWith (dropWhile isSchemeChar rest) (js ''://'')
      | _ \<Rightarrow> False)"

section \<open>\<open>removeParameterFromUrl\<close> (lines 40-43)\<close>

text \<open>
  The first \<open>replace\<close>, with the pattern \<open>[?&]parameter=[^&#]*(#.*)?$\<close> and the replacement
  \<open>$1\<close>. \<open>key\<close> is \<open>parameter\<close> followed by \<open>=\<close>; the parameter is taken literally (the one
  caller passes \<open>json_url\<close>, which has no character special in a pattern).
  \<open>matchParameterAtEnd key s\<close> tries the pattern at the start of \<open>s\<close> and returns the group: the
  run of \<open>[^&#]\<close> must reach the end of the string, or a \<open>#\<close> that no line terminator
  follows.
\<close>

definition matchParameterAtEnd :: "jsstring \<Rightarrow> jsstring \<Rightarrow> jsstring option" where
  "matchParameterAtEnd key s =
     (case s of
        [] \<Rightarrow> None
      | c # rest \<Rightarrow>
          if (c = 0x3F \<or> c = 0x26) \<and> startsWith rest key then
            (case dropWhile (\<lambda>c. c \<noteq> 0x26 \<and> c \<noteq> 0x23) (drop (length key) rest) of
               [] \<Rightarrow> Some []
             | d # tail \<Rightarrow>
                 if d = 0x23 \<and> list_all notLineTerminator tail then Some (d # tail) else None)
          else None)"

fun removeParameterAtEnd :: "jsstring \<Rightarrow> jsstring \<Rightarrow> jsstring" where
  "removeParameterAtEnd key [] = []"
| "removeParameterAtEnd key (c # rest) =
     (case matchParameterAtEnd key (c # rest) of
        Some matched \<Rightarrow> matched
      | None \<Rightarrow> c # removeParameterAtEnd key rest)"

text \<open>The second \<open>replace\<close>, with the pattern \<open>([?&])parameter=[^&]*&\<close> and the replacement
  \<open>$1\<close>: the separator stays, the parameter and the \<open>&\<close> that ends it go.\<close>

fun removeParameterInside :: "jsstring \<Rightarrow> jsstring \<Rightarrow> jsstring" where
  "removeParameterInside key [] = []"
| "removeParameterInside key (c # rest) =
     (if (c = 0x3F \<or> c = 0x26) \<and> startsWith rest key \<and> 0x26 \<in> set (drop (length key) rest)
      then c # drop 1 (dropWhile (\<lambda>c. c \<noteq> 0x26) (drop (length key) rest))
      else c # removeParameterInside key rest)"

definition removeParameterFromUrl :: "jsstring \<Rightarrow> jsstring \<Rightarrow> jsstring" where
  "removeParameterFromUrl url parameter =
     removeParameterInside (parameter @ js ''='') (removeParameterAtEnd (parameter @ js ''='') url)"

section \<open>The collaborators of the binding\<close>

text \<open>
  The binding calls modules that are not part of \<open>url_hash_binding.ts\<close>: the state tree
  (\<open>Trackable\<close>, with \<open>reset\<close> and \<open>restoreState\<close>), \<open>getCachedJson\<close>, \<open>urlSafeParse\<close>,
  \<open>verifyObject\<close> and \<open>parseSpecialUrl\<close>; \<open>JSON.stringify\<close> depends on the values of the tree.
  They are parameters of the model: \<open>'t\<close> is the type of the tree and \<open>'j\<close> the type of JSON
  values, and every theorem about the binding holds for every behaviour of the collaborators.
  \<^item> \<open>getCachedJson\<close> returns the value of the tree and its generation;
  \<^item> \<open>urlSafeParse\<close> returns a value or throws;
  \<^item> \<open>verifyObject\<close> returns normally (\<open>None\<close>) or throws (\<open>Some e\<close>);
  \<^item> \<open>restoreState\<close> returns the tree as it leaves it, and the exception when it throws;
  \<^item> \<open>parseSpecialUrl\<close> returns the URL to fetch or throws.
\<close>

record ('t, 'j) collaborators =
  getCachedJson :: "'t \<Rightarrow> 'j \<times> nat"
  JSON_stringify :: "'j \<Rightarrow> jsstring"
  urlSafeParse :: "jsstring \<Rightarrow> error + 'j"
  verifyObject :: "'j \<Rightarrow> error option"
  reset :: "'t \<Rightarrow> 't"
  restoreState :: "'t \<Rightarrow> 'j \<Rightarrow> 't \<times> error option"
  parseSpecialUrl :: "jsstring \<Rightarrow> error + jsstring"

section \<open>The state of a \<open>UrlHashBinding\<close> (lines 48-62)\<close>

text \<open>
  The fields of the object, and the two pieces of the environment it reads and writes:
  \<open>href\<close> is \<open>window.location.href\<close>, and \<open>loading\<close> lists the URLs of the remote states whose
  fetch has been started (line 136), in order.
\<close>

record 't binding =
  root :: 't
  prevStateString :: "jsstring option"
  prevStateGeneration :: "nat option"
  parseError :: "error option"
  href :: jsstring
  loading :: "jsstring list"

text \<open>
  \<open>history.replaceState(null, '', url)\<close>: the new \<open>location.href\<close>. The binding passes a whole
  URL (line 80), or a reference that starts with \<open>#\<close> (lines 88 and 90), which replaces the
  fragment of the current URL.
\<close>

definition replaceState :: "jsstring \<Rightarrow> jsstring \<Rightarrow> jsstring" where
  "replaceState url current =
     (if startsWith url (js ''#'') then takeWhile (\<lambda>c. c \<noteq> 0x23) current @ url else url)"

section \<open>\<open>setUrlHash\<close> (lines 77-94)\<close>

text \<open>
  The result is the state after the call and the exception that escapes it, if any:
  \<open>setUrlHash\<close> has no \<open>try\<close>, so a \<open>URIError\<close> of \<open>encodeURI\<close> (a lone surrogate in the JSON
  text) or of \<open>decodeURIComponent\<close> leaves the assignments made before it in place.
\<close>

definition setUrlHash :: "('t, 'j) collaborators \<Rightarrow> 't binding \<Rightarrow> 't binding \<times> error option" where
  "setUrlHash env st =
     (case getCachedJson env (root st) of
        (val, generation) \<Rightarrow>
          let st1 = st\<lparr>href := replaceState (removeParameterFromUrl (href st) (js ''json_url'')) (href st)\<rparr>
          in
            if Some generation \<noteq> prevStateGeneration st1 then
              (let st2 = st1\<lparr>prevStateGeneration := Some generation\<rparr> in
               case encodeFragment (JSON_stringify env val) of
                 Inl e \<Rightarrow> (st2, Some e)
               | Inr stateString \<Rightarrow>
                   if Some stateString \<noteq> prevStateString st2 then
                     (let st3 = st2\<lparr>prevStateString := Some stateString\<rparr> in
                      case decodeURIComponent stateString of
                        Inl e \<Rightarrow> (st3, Some e)
                      | Inr decoded \<Rightarrow>
                          if decoded = js ''{}''
                          then (st3\<lparr>href := replaceState (js ''#'') (href st3)\<rparr>, None)
                          else (st3\<lparr>href := replaceState (js ''#!'' @ stateString) (href st3)\<rparr>, None))
                   else (st2, None))
            else (st1, None))"

section \<open>\<open>checkRedirectFragment\<close> (lines 106-114)\<close>

definition checkRedirectFragment :: "jsstring \<Rightarrow> bool \<times> jsstring" where
  "checkRedirectFragment locationHref =
     (let justQuery = afterLastQuestionMark locationHref;
          params = URLSearchParams justQuery
      in case map_of params (js ''redirect_fragment'') of
           None \<Rightarrow> (False, [])
         | Some v \<Rightarrow> (True, js ''#'' @ v))"

section \<open>\<open>updateFromUrlHash\<close> (lines 120-178)\<close>

text \<open>How the body of the \<open>try\<close> ends: it runs to line 174, it returns at line 164, or it
  throws.\<close>

datatype outcome = Completed | Returned | Thrown error

text \<open>Lines 123-131: whether the redirect fragment was found, and the string \<open>s\<close> that is
  classified.\<close>

definition effectiveFragment :: "jsstring \<Rightarrow> bool \<times> jsstring" where
  "effectiveFragment locationHref =
     (case checkRedirectFragment locationHref of
        (found, fragment) \<Rightarrow>
          if \<not> found then
            (let s = fromFirstHash locationHref in
             if s = [] \<or> s = js ''#'' \<or> s = js ''#!'' then (found, js ''#!{}'') else (found, s))
          else (found, fragment))"

text \<open>Lines 147-151 and, the same, lines 158-162: \<open>decodeURIComponent\<close>, and once more when the
  redirect fragment was found.\<close>

definition decodePayload :: "bool \<Rightarrow> jsstring \<Rightarrow> error + jsstring" where
  "decodePayload found s =
     (case decodeURIComponent s of
        Inl e \<Rightarrow> Inl e
      | Inr s1 \<Rightarrow> if found then decodeURIComponent s1 else Inr s1)"

text \<open>Lines 152-155, on the decoded string of a \<open>#!+\<close> fragment.\<close>

definition restoreLegacy :: "('t, 'j) collaborators \<Rightarrow> 't binding \<Rightarrow> jsstring \<Rightarrow> outcome \<times> 't binding" where
  "restoreLegacy env st s =
     (case urlSafeParse env s of
        Inl e \<Rightarrow> (Thrown e, st)
      | Inr state \<Rightarrow>
          (case verifyObject env state of
             Some e \<Rightarrow> (Thrown e, st)
           | None \<Rightarrow>
               (case restoreState env (root st) state of
                  (r, Some e) \<Rightarrow> (Thrown e, st\<lparr>root := r\<rparr>)
                | (r, None) \<Rightarrow> (Completed, st\<lparr>root := r, prevStateString := None\<rparr>))))"

text \<open>Lines 163-170, on the decoded string of a \<open>#!\<close> fragment.\<close>

definition restoreStandard :: "('t, 'j) collaborators \<Rightarrow> 't binding \<Rightarrow> jsstring \<Rightarrow> outcome \<times> 't binding" where
  "restoreStandard env st s =
     (if Some s = prevStateString st then (Returned, st)
      else
        (let st1 = st\<lparr>prevStateString := Some s\<rparr>;
             st2 = st1\<lparr>root := reset env (root st1)\<rparr>
         in case urlSafeParse env s of
              Inl e \<Rightarrow> (Thrown e, st2)
            | Inr state \<Rightarrow>
                (case verifyObject env state of
                   Some e \<Rightarrow> (Thrown e, st2)
                 | None \<Rightarrow>
                     (case restoreState env (root st2) state of
                        (r, Some e) \<Rightarrow> (Thrown e, st2\<lparr>root := r\<rparr>)
                      | (r, None) \<Rightarrow> (Completed, st2\<lparr>root := r\<rparr>)))))"

text \<open>
  Lines 132-173, the classification of \<open>s\<close>. In the remote branch only \<open>parseSpecialUrl\<close> runs
  now: the fetch is started and its \<open>then\<close> callback (lines 138-142) runs later, so the tree
  is not touched here.
\<close>

definition tryBody :: "('t, 'j) collaborators \<Rightarrow> 't binding \<Rightarrow> outcome \<times> 't binding" where
  "tryBody env st =
     (case effectiveFragment (href st) of
        (found, s) \<Rightarrow>
          if matchesRemoteState s then
            (case parseSpecialUrl env (drop 2 s) of
               Inl e \<Rightarrow> (Thrown e, st)
             | Inr parsedUrl \<Rightarrow> (Completed, st\<lparr>loading := loading st @ [parsedUrl]\<rparr>))
          else if startsWith s (js ''#!+'') then
            (case decodePayload found (drop 3 s) of
               Inl e \<Rightarrow> (Thrown e, st)
             | Inr decoded \<Rightarrow> restoreLegacy env st decoded)
          else if startsWith s (js ''#!'') then
            (case decodePayload found (drop 2 s) of
               Inl e \<Rightarrow> (Thrown e, st)
             | Inr decoded \<Rightarrow> restoreStandard env st decoded)
          else (Thrown HashFormError, st))"

text \<open>Lines 174-177: the error cell is cleared when the body runs to its end, set when it
  throws, and left alone when the body returns.\<close>

definition finish :: "outcome \<times> 't binding \<Rightarrow> 't binding" where
  "finish r =
     (case r of
        (Completed, st) \<Rightarrow> st\<lparr>parseError := None\<rparr>
      | (Returned, st) \<Rightarrow> st
      | (Thrown e, st) \<Rightarrow> st\<lparr>parseError := Some e\<rparr>)"

definition updateFromUrlHash :: "('t, 'j) collaborators \<Rightarrow> 't binding \<Rightarrow> 't binding" where
  "updateFromUrlHash env st = finish (tryBody env st)"

text \<open>The \<open>then\<close> callback of the remote branch (lines 138-142), run when the fetch has
  delivered \<open>json\<close>; a failure of it goes to the status message, not to the binding.\<close>

definition remoteStateLoaded :: "('t, 'j) collaborators \<Rightarrow> 't binding \<Rightarrow> 'j \<Rightarrow> 't binding" where
  "remoteStateLoaded env st json =
     (case verifyObject env json of
        Some e \<Rightarrow> st
      | None \<Rightarrow> st\<lparr>root := fst (restoreState env (reset env (root st)) json)\<rparr>)"

section \<open>A state tree and collaborators to run the binding on\<close>

text \<open>
  Modelled from the spec: the state tree and the JSON helpers are not among the sources, so
  the concrete runs below use a tree as section 3 of the specification describes it: a
  current value and a generation that changes with the value, \<open>reset\<close> clears the value to the
  empty object, \<open>restoreState\<close> replaces it. A JSON value is held as its JSON text, so
  \<open>JSON.stringify\<close> is the identity; the tree also records the calls it receives.
  \<open>testParse\<close> knows the JSON texts the runs use and throws a \<open>SyntaxError\<close> on any other
  string; \<open>testVerifyObject\<close> accepts the texts that start with a brace.
\<close>

datatype call = Reset | RestoreState jsstring

record tree =
  treeValue :: jsstring
  generation :: nat
  calls :: "call list"

definition testParse :: "jsstring \<Rightarrow> error + jsstring" where
  "testParse s = (if s \<in> set [js ''{}'', js ''{\"a\":1}'', js ''1''] then Inr s else Inl SyntaxError)"

definition testVerifyObject :: "jsstring \<Rightarrow> error option" where
  "testVerifyObject v = (if startsWith v (js ''{'') then None else Some VerifyError)"

definition testReset :: "tree \<Rightarrow> tree" where
  "testReset t = t\<lparr>treeValue := js ''{}'', generation := generation t + 1, calls := calls t @ [Reset]\<rparr>"

definition testRestoreState :: "tree \<Rightarrow> jsstring \<Rightarrow> tree \<times> error option" where
  "testRestoreState t v =
     (t\<lparr>treeValue := v, generation := generation t + 1, calls := calls t @ [RestoreState v]\<rparr>, None)"

definition testEnv :: "(tree, jsstring) collaborators" where
  "testEnv =
     \<lparr>getCachedJson = (\<lambda>t. (treeValue t, generation t)),
      JSON_stringify = (\<lambda>v. v),
      urlSafeParse = testParse,
      verifyObject = testVerifyObject,
      reset = testReset,
      restoreState = testRestoreState,
      parseSpecialUrl = (\<lambda>url. Inr url)\<rparr>"

text \<open>A binding just constructed on the page \<open>url\<close>, over a tree that holds \<open>v\<close>.\<close>

definition newBinding :: "jsstring \<Rightarrow> jsstring \<Rightarrow> tree binding" where
  "newBinding url v =
     \<lparr>root = \<lparr>treeValue = v, generation = 0, calls = []\<rparr>,
      prevStateString = None, prevStateGeneration = None, parseError = None,
      href = url, loading = []\<rparr>"

text \<open>The binding after a \<open>hashchange\<close> on the fragment \<open>#!%7B\<close>: the decoded text \<open>{\<close> is
  not JSON, so the parse has failed once.\<close>

definition failedOnce :: "tree binding" where
  "failedOnce = updateFromUrlHash testEnv (newBinding (js ''http://h/#!%7B'') (js ''{\"a\":1}''))"

text \<open>The binding after a first outbound write, and the same binding after the tree's
  generation has moved while its JSON text is what it was.\<close>

definition written :: "tree binding" where
  "written = fst (setUrlHash testEnv (newBinding (js ''http://h/?json_url=x'') (js ''{\"a\":1}'')))"

definition touched :: "tree binding" where
  "touched = written\<lparr>root := (root written)\<lparr>generation := 5\<rparr>\<rparr>"

text \<open>A binding whose tree has become the empty object while the URL still shows an older
  state.\<close>

definition emptyTree :: "tree binding" where
  "emptyTree = newBinding (js ''http://h/#!%7B%22a%22:1%7D'') (js ''{}'')"

text \<open>A binding whose page shows the standard form of the empty object.\<close>

definition loadsEmpty :: "tree binding" where
  "loadsEmpty = newBinding (js ''http://h/#!%7B%7D'') (js ''{\"a\":1}'')"

section \<open>The two recorded fields\<close>

text \<open>The two fields are updated together by a step when one changes exactly if the other
  does.\<close>

definition updatedTogether :: "'t binding \<Rightarrow> 't binding \<Rightarrow> bool" where
  "updatedTogether before after =
     ((prevStateString after \<noteq> prevStateString before)
        = (prevStateGeneration after \<noteq> prevStateGeneration before))"

section \<open>Percent-decoding inverts \<open>encodeFragment\<close>\<close>

lemma unat_of_nat_cu: "n < 65536 \<Longrightarrow> unat (of_nat n :: codeunit) = n"
  by (simp add: unat_of_nat)

lemma unat_cu_bound: "unat (c :: codeunit) < 65536"
  using unsigned_less [of c, where 'a = nat] by simp

lemma unat_hexDigit: "d < 16 \<Longrightarrow> unat (hexDigit d) = (if d < 10 then 0x30 + d else 0x37 + d)"
  unfolding hexDigit_def by (simp add: unat_of_nat_cu del: of_nat_add of_nat_numeral)

lemma hexValue_hexDigit: "d < 16 \<Longrightarrow> hexValue (hexDigit d) = Some d"
  by (simp add: hexValue_def word_le_nat_alt unat_hexDigit)

lemma ParseHexOctet_pct:
  "b < 256 \<Longrightarrow> ParseHexOctet (hexDigit (b div 16) # hexDigit (b mod 16) # t) = Some b"
proof -
  assume b: "b < 256"
  then have "b div 16 < 16" by simp
  moreover have "b mod 16 < 16" by simp
  ultimately show ?thesis
    by (simp add: ParseHexOctet_def hexValue_hexDigit)
qed

lemma continuationOctets_pct:
  "list_all (\<lambda>b. b < 256) bs \<Longrightarrow>
   continuationOctets (length bs) (concat (map pctOctet bs) @ t) = Some (bs, t)"
  by (induction bs) (simp_all add: pctOctet_def ParseHexOctet_pct)

lemma digits64_3: "(cp::nat) = (cp div 4096) * 4096 + (cp div 64 mod 64) * 64 + cp mod 64"
proof -
  have "cp div 4096 = cp div 64 div 64" by (simp add: div_mult2_eq)
  moreover have "cp div 64 = cp div 64 div 64 * 64 + cp div 64 mod 64" by simp
  moreover have "cp = cp div 64 * 64 + cp mod 64" by simp
  ultimately show ?thesis by linarith
qed

lemma digits64_4: "(cp::nat) = (cp div 262144) * 262144 + (cp div 4096 mod 64) * 4096 + (cp div 64 mod 64) * 64 + cp mod 64"
proof -
  have "cp div 262144 = cp div 4096 div 64" by (simp add: div_mult2_eq)
  moreover have "cp div 4096 = cp div 4096 div 64 * 64 + cp div 4096 mod 64" by simp
  ultimately show ?thesis using digits64_3 [of cp] by linarith
qed

lemma utf8CodePoint_3: 
  assumes "0x800 \<le> cp" "cp < 0x10000" "\<not> (0xD800 \<le> cp \<and> cp \<le> 0xDFFF)"
  shows "utf8CodePoint (utf8Octets cp) = Some cp"
proof -
  define a where "a = cp div 4096"
  define b where "b = cp div 64 mod 64"
  define c where "c = cp mod 64"
  have cp: "cp = a * 4096 + b * 64 + c"
    unfolding a_def b_def c_def by (rule digits64_3)
  have b: "b < 64" and c: "c < 64" by (simp_all add: b_def c_def)
  have oct: "utf8Octets cp = [0xE0 + a, 0x80 + b, 0x80 + c]"
    using assms by (simp add: utf8Octets_def a_def b_def c_def)
  have a15: "a \<le> 15" using assms cp by linarith
  have a0: "a = 0 \<Longrightarrow> 32 \<le> b" using assms cp c by linarith
  have a13: "a = 13 \<Longrightarrow> b \<le> 31" using assms cp b c by linarith
  show ?thesis
    unfolding oct using a15 a0 a13 b c cp
    by (simp add: utf8CodePoint_def isContinuation_def)
qed

lemma utf8CodePoint_4: 
  assumes "0x10000 \<le> cp" "cp < 0x110000"
  shows "utf8CodePoint (utf8Octets cp) = Some cp"
proof -
  define a where "a = cp div 262144"
  define b where "b = cp div 4096 mod 64"
  define c where "c = cp div 64 mod 64"
  define d where "d = cp mod 64"
  have cp: "cp = a * 262144 + b * 4096 + c * 64 + d"
    unfolding a_def b_def c_def d_def by (rule digits64_4)
  have b: "b < 64" and c: "c < 64" and d: "d < 64" by (simp_all add: b_def c_def d_def)
  have oct: "utf8Octets cp = [0xF0 + a, 0x80 + b, 0x80 + c, 0x80 + d]"
    using assms by (simp add: utf8Octets_def a_def b_def c_def d_def)
  have a4: "a \<le> 4" using assms cp by linarith
  have a0: "a = 0 \<Longrightarrow> 16 \<le> b" using assms cp c d by linarith
  have a13: "a = 4 \<Longrightarrow> b \<le> 15" using assms cp by linarith
  show ?thesis
    unfolding oct using a4 a0 a13 b c d cp
    by (simp add: utf8CodePoint_def isContinuation_def)
qed

lemma mod64_lt: "(n::nat) mod 64 < 128" "n mod 64 < 256"
proof -
  have "n mod 64 < 64" by simp
  then show "n mod 64 < 128" "n mod 64 < 256" by linarith+
qed

lemma utf8Octets_bytes: "cp < 0x110000 \<Longrightarrow> list_all (\<lambda>b. b < 256) (utf8Octets cp)"
  by (simp add: utf8Octets_def div_less_iff_less_mult mod64_lt) 

lemma leadingOnes_utf8: "0x80 \<le> cp \<Longrightarrow> cp < 0x110000 \<Longrightarrow> leadingOnes (hd (utf8Octets cp)) = length (utf8Octets cp)"
  by (simp add: utf8Octets_def leadingOnes_def div_less_iff_less_mult)

lemma prepend_prepend: "prepend xs (prepend ys r) = prepend (xs @ ys) r"
  by (simp add: prepend_def split: sum.splits)

lemma prepend_Nil: "prepend [] r = r"
  by (simp add: prepend_def split: sum.splits)

lemma Decode_multi:
  assumes oct: "octets = B # octs"
    and bytes: "list_all (\<lambda>b. b < 256) octets"
    and lead: "leadingOnes B = length octets"
    and len: "2 \<le> length octets" "length octets \<le> 4"
    and cp: "utf8CodePoint octets = Some V"
  shows "Decode p (concat (map pctOctet octets) @ t) = prepend (UTF16EncodeCodePoint V) (Decode p t)"
proof -
  have B: "B < 256" and octs: "list_all (\<lambda>b. b < 256) octs"
    using bytes oct by simp_all
  let ?rest = "hexDigit (B div 16) # hexDigit (B mod 16) # (concat (map pctOctet octs) @ t)"
  have str: "concat (map pctOctet octets) @ t = 0x25 # ?rest"
    by (simp add: oct pctOctet_def)
  have hex: "ParseHexOctet ?rest = Some B"
    using B by (rule ParseHexOctet_pct)
  have cont: "continuationOctets (leadingOnes B - 1) (drop 2 ?rest) = Some (octs, t)"
    using continuationOctets_pct [OF octs, of t] lead oct by simp
  have n0: "leadingOnes B \<noteq> 0" and n1: "\<not> (leadingOnes B = 1 \<or> leadingOnes B > 4)"
    using lead len by linarith+
  have cp': "utf8CodePoint (B # octs) = Some V"
    using cp oct by simp
  show ?thesis
    unfolding str using hex cont n0 n1 cp' by simp
qed

lemma utf8CodePoint_2: "0x80 \<le> cp \<Longrightarrow> cp < 0x800 \<Longrightarrow> utf8CodePoint (utf8Octets cp) = Some cp"
  by (simp add: utf8Octets_def utf8CodePoint_def isContinuation_def) arith

lemma Decode_ascii:
  assumes "b < 0x80"
  shows "Decode (\<lambda>c. False) (pctOctet b @ t) = prepend [of_nat b] (Decode (\<lambda>c. False) t)"
proof -
  have "b < 256" using assms by simp
  then have "ParseHexOctet (hexDigit (b div 16) # hexDigit (b mod 16) # t) = Some b"
    by (rule ParseHexOctet_pct)
  then show ?thesis using assms by (simp add: pctOctet_def leadingOnes_def)
qed

lemma length_utf8Octets: "0x80 \<le> cp \<Longrightarrow> 2 \<le> length (utf8Octets cp)" "length (utf8Octets cp) \<le> 4"
  by (simp_all add: utf8Octets_def)

lemma Decode_utf8:
  assumes "0x80 \<le> cp" "cp < 0x110000" "\<not> (0xD800 \<le> cp \<and> cp \<le> 0xDFFF)"
  shows "Decode p (concat (map pctOctet (utf8Octets cp)) @ t) = prepend (UTF16EncodeCodePoint cp) (Decode p t)"
proof -
  obtain B octs where oct: "utf8Octets cp = B # octs"
    using length_utf8Octets(1) [OF assms(1)] by (cases "utf8Octets cp") auto
  have lead: "leadingOnes B = length (utf8Octets cp)"
    using leadingOnes_utf8 [OF assms(1,2)] oct by simp
  have cpt: "utf8CodePoint (utf8Octets cp) = Some cp"
  proof -
    consider "cp < 0x800" | "0x800 \<le> cp" "cp < 0x10000" | "0x10000 \<le> cp" by linarith
    then show ?thesis
    proof cases
      case 1 then show ?thesis using assms by (simp add: utf8CodePoint_2)
    next
      case 2 then show ?thesis using assms by (simp add: utf8CodePoint_3)
    next
      case 3 then show ?thesis using assms by (simp add: utf8CodePoint_4)
    qed
  qed
  show ?thesis
    by (rule Decode_multi [OF oct utf8Octets_bytes [OF assms(2)] lead length_utf8Octets(1) [OF assms(1)] length_utf8Octets(2) cpt])
qed

lemma UTF16Encode_unat: "UTF16EncodeCodePoint (unat (C :: codeunit)) = [C]"
  using unat_cu_bound [of C] by (simp add: UTF16EncodeCodePoint_def)

lemma UTF16Encode_pair:
  assumes "isLeadingSurrogate C" "isTrailingSurrogate D"
  shows "UTF16EncodeCodePoint (UTF16SurrogatePairToCodePoint C D) = [C, D]"
proof -
  have C: "0xD800 \<le> unat C" "unat C \<le> 0xDBFF" and D: "0xDC00 \<le> unat D" "unat D \<le> 0xDFFF"
    using assms by (simp_all add: isLeadingSurrogate_def isTrailingSurrogate_def word_le_nat_alt)
  define x where "x = unat C - 0xD800"
  define y where "y = unat D - 0xDC00"
  have y: "y < 0x400" using D by (simp add: y_def)
  have cp: "UTF16SurrogatePairToCodePoint C D = x * 0x400 + y + 0x10000"
    by (simp add: UTF16SurrogatePairToCodePoint_def x_def y_def)
  have "(x * 0x400 + y) div 0x400 = x" "(x * 0x400 + y) mod 0x400 = y"
    using y by simp_all
  moreover have "x + 0xD800 = unat C" "y + 0xDC00 = unat D"
    using C D by (simp_all add: x_def y_def)
  ultimately show ?thesis
    unfolding cp by (simp add: UTF16EncodeCodePoint_def del: of_nat_add of_nat_numeral)
qed

lemma pair_range:
  assumes "isLeadingSurrogate C" "isTrailingSurrogate D"
  shows "0x10000 \<le> UTF16SurrogatePairToCodePoint C D" "UTF16SurrogatePairToCodePoint C D < 0x110000"
proof -
  have C: "0xD800 \<le> unat C" "unat C \<le> 0xDBFF" and D: "0xDC00 \<le> unat D" "unat D \<le> 0xDFFF"
    using assms by (simp_all add: isLeadingSurrogate_def isTrailingSurrogate_def word_le_nat_alt)
  show "0x10000 \<le> UTF16SurrogatePairToCodePoint C D" "UTF16SurrogatePairToCodePoint C D < 0x110000"
    using C D by (simp_all add: UTF16SurrogatePairToCodePoint_def)
qed

lemma escapeExtra_hexDigit: "d < 16 \<Longrightarrow> escapeExtra (hexDigit d) = [hexDigit d]"
proof -
  assume d: "d < 16"
  have "48 \<le> unat (hexDigit d)" "unat (hexDigit d) \<noteq> 59"
    using d by (simp_all add: unat_hexDigit)
  then show ?thesis
    by (auto simp: escapeExtra_def js_def)
qed

lemma escapeExtra_pct: "b < 256 \<Longrightarrow> concat (map escapeExtra (pctOctet b)) = pctOctet b"
proof -
  assume b: "b < 256"
  then have "b div 16 < 16" by simp
  moreover have "b mod 16 < 16" by simp
  moreover have "escapeExtra 0x25 = [0x25]" by (simp add: escapeExtra_def js_def)
  ultimately show ?thesis
    by (simp add: pctOctet_def escapeExtra_hexDigit)
qed

lemma escapeExtra_pcts:
  "list_all (\<lambda>b. b < 256) bs \<Longrightarrow>
   concat (map escapeExtra (concat (map pctOctet bs))) = concat (map pctOctet bs)"
  by (induction bs) (simp_all add: escapeExtra_pct)

lemma escapeExtra_cases:
  "escapeExtra C = [C] \<and> \<not> (C \<in> set (js ''!()*;,'') \<or> C = 0x27)
   \<or> escapeExtra C = pctOctet (unat C) \<and> unat C < 0x80"
  by (auto simp: escapeExtra_def js_def pctOctet_def hexDigit_def)

lemma Decode_escapeExtra:
  assumes "encodeURIUnescapedSet C"
  shows "Decode (\<lambda>c. False) (escapeExtra C @ t) = prepend [C] (Decode (\<lambda>c. False) t)"
proof -
  have ne: "C \<noteq> 0x25"
    using assms
    by (auto simp: encodeURIUnescapedSet_def uriReserved_def uriUnescaped_def isAlnum_def js_def)
  from escapeExtra_cases [of C] show ?thesis
  proof
    assume "escapeExtra C = [C] \<and> \<not> (C \<in> set (js ''!()*;,'') \<or> C = 0x27)"
    then show ?thesis using ne by simp
  next
    assume "escapeExtra C = pctOctet (unat C) \<and> unat C < 0x80"
    then show ?thesis using Decode_ascii [of "unat C" t] by simp
  qed
qed

lemma Decode_Encode_escape:
  "Encode U s = Inr e \<Longrightarrow> U = encodeURIUnescapedSet \<Longrightarrow>
   Decode (\<lambda>c. False) (concat (map escapeExtra e) @ t) = prepend s (Decode (\<lambda>c. False) t)"
proof (induction U s arbitrary: e rule: Encode.induct)
  case (1 U)
  then show ?case by (simp add: prepend_Nil)
next
  case (2 U C rest)
  show ?case
  proof (cases "U C")
    case True
    with "2.prems" obtain e' where e': "Encode U rest = Inr e'" and e: "e = C # e'"
      by (auto simp: prepend_def split: sum.splits)
    have "Decode (\<lambda>c. False) (concat (map escapeExtra e') @ t) = prepend rest (Decode (\<lambda>c. False) t)"
      using "2.IH"(1) [OF True e' "2.prems"(2)] .
    then show ?thesis
      using Decode_escapeExtra [of C "concat (map escapeExtra e') @ t"] True "2.prems"(2)
      by (simp add: e prepend_prepend)
  next
    case False
    then have notU: "\<not> U C" .
    show ?thesis
    proof (cases "isTrailingSurrogate C")
      case True
      with notU "2.prems" show ?thesis by simp
    next
      case notT: False
      show ?thesis
      proof (cases "isLeadingSurrogate C")
        case True
        with notU notT "2.prems" obtain D rest' e' where
          rest: "rest = D # rest'" and D: "isTrailingSurrogate D" and
          e': "Encode U rest' = Inr e'" and
          e: "e = concat (map pctOctet (utf8Octets (UTF16SurrogatePairToCodePoint C D))) @ e'"
          by (auto simp: prepend_def split: sum.splits list.splits if_splits)
        let ?cp = "UTF16SurrogatePairToCodePoint C D"
        have range: "0x10000 \<le> ?cp" "?cp < 0x110000"
          using pair_range [OF True D] by simp_all
        have ih: "Decode (\<lambda>c. False) (concat (map escapeExtra e') @ t) = prepend rest' (Decode (\<lambda>c. False) t)"
          using "2.IH"(2) [OF notU notT True rest D e' "2.prems"(2)] .
        have "Decode (\<lambda>c. False) (concat (map pctOctet (utf8Octets ?cp)) @ (concat (map escapeExtra e') @ t))
              = prepend (UTF16EncodeCodePoint ?cp) (Decode (\<lambda>c. False) (concat (map escapeExtra e') @ t))"
          using range by (intro Decode_utf8) simp_all
        then show ?thesis
          using ih escapeExtra_pcts [OF utf8Octets_bytes [OF range(2)]]
          by (simp add: e rest UTF16Encode_pair [OF True D] prepend_prepend)
      next
        case notL: False
        with notU notT "2.prems" obtain e' where
          e': "Encode U rest = Inr e'" and
          e: "e = concat (map pctOctet (utf8Octets (unat C))) @ e'"
          by (auto simp: prepend_def split: sum.splits)
        have ih: "Decode (\<lambda>c. False) (concat (map escapeExtra e') @ t) = prepend rest (Decode (\<lambda>c. False) t)"
          using "2.IH"(3) [OF notU notT notL e' "2.prems"(2)] .
        have lt: "unat C < 0x110000" using unat_cu_bound [of C] by simp
        have nosur: "\<not> (0xD800 \<le> unat C \<and> unat C \<le> 0xDFFF)"
          using notT notL
          by (auto simp: isLeadingSurrogate_def isTrailingSurrogate_def word_le_nat_alt)
        have "Decode (\<lambda>c. False) (concat (map pctOctet (utf8Octets (unat C))) @ (concat (map escapeExtra e') @ t))
              = prepend [C] (Decode (\<lambda>c. False) (concat (map escapeExtra e') @ t))"
        proof (cases "unat C < 0x80")
          case True
          then show ?thesis
            using Decode_ascii [of "unat C" "concat (map escapeExtra e') @ t"]
            by (simp add: utf8Octets_def)
        next
          case False
          then show ?thesis
            using Decode_utf8 [of "unat C" "\<lambda>c. False" "concat (map escapeExtra e') @ t"] lt nosur
            by (simp add: UTF16Encode_unat)
        qed
        then show ?thesis
          using ih escapeExtra_pcts [OF utf8Octets_bytes [OF lt]]
          by (simp add: e prepend_prepend)
      qed
    qed
  qed
qed

lemma decode_encodeFragment:
  "encodeFragment s = Inr e \<Longrightarrow> decodeURIComponent e = Inr s"
proof -
  assume "encodeFragment s = Inr e"
  then obtain e0 where e0: "Encode encodeURIUnescapedSet s = Inr e0" and e: "e = concat (map escapeExtra e0)"
    by (auto simp: encodeFragment_def encodeURI_def split: sum.splits)
  from Decode_Encode_escape [OF e0 refl, of "[]"] show ?thesis
    by (simp add: e decodeURIComponent_def prepend_def)
qed

section \<open>An encoded fragment can be encoded again\<close>

lemma hexDigit_ascii: "d < 16 \<Longrightarrow> isAscii (hexDigit d)"
  by (simp add: isAscii_def word_less_nat_alt unat_hexDigit)

lemma pctOctet_ascii: "b < 256 \<Longrightarrow> list_all isAscii (pctOctet b)"
proof -
  assume "b < 256"
  then have "b div 16 < 16" by simp
  moreover have "b mod 16 < 16" by simp
  ultimately show ?thesis
    by (simp add: pctOctet_def hexDigit_ascii) (simp add: isAscii_def)
qed

lemma pctOctets_ascii:
  "list_all (\<lambda>b. b < 256) bs \<Longrightarrow> list_all isAscii (concat (map pctOctet bs))"
  by (induction bs) (simp_all add: pctOctet_ascii)

lemma unescaped_ascii: "encodeURIUnescapedSet C \<Longrightarrow> isAscii C"
  by (auto simp: encodeURIUnescapedSet_def uriReserved_def uriUnescaped_def isAlnum_def js_def
      isAscii_def word_le_nat_alt word_less_nat_alt)

lemma escapeExtra_ascii: "isAscii C \<Longrightarrow> list_all isAscii (escapeExtra C)"
  using escapeExtra_cases [of C] pctOctet_ascii [of "unat C"]
  by auto

lemma escapeExtra_all_ascii:
  "list_all isAscii s \<Longrightarrow> list_all isAscii (concat (map escapeExtra s))"
  by (induction s) (simp_all add: escapeExtra_ascii)

lemma Encode_ascii_output:
  "Encode U s = Inr e \<Longrightarrow> U = encodeURIUnescapedSet \<Longrightarrow> list_all isAscii e"
proof (induction U s arbitrary: e rule: Encode.induct)
  case (1 U)
  then show ?case by simp
next
  case (2 U C rest)
  show ?case
  proof (cases "U C")
    case True
    with "2.prems" obtain e' where e': "Encode U rest = Inr e'" and e: "e = C # e'"
      by (auto simp: prepend_def split: sum.splits)
    from "2.IH"(1) [OF True e' "2.prems"(2)] True "2.prems"(2) show ?thesis
      by (simp add: e unescaped_ascii)
  next
    case notU: False
    show ?thesis
    proof (cases "isTrailingSurrogate C")
      case True
      with notU "2.prems" show ?thesis by simp
    next
      case notT: False
      show ?thesis
      proof (cases "isLeadingSurrogate C")
        case True
        with notU notT "2.prems" obtain D rest' e' where
          rest: "rest = D # rest'" and D: "isTrailingSurrogate D" and
          e': "Encode U rest' = Inr e'" and
          e: "e = concat (map pctOctet (utf8Octets (UTF16SurrogatePairToCodePoint C D))) @ e'"
          by (auto simp: prepend_def split: sum.splits list.splits if_splits)
        from "2.IH"(2) [OF notU notT True rest D e' "2.prems"(2)]
          pctOctets_ascii [OF utf8Octets_bytes [OF pair_range(2) [OF True D]]]
        show ?thesis by (simp add: e)
      next
        case notL: False
        with notU notT "2.prems" obtain e' where
          e': "Encode U rest = Inr e'" and
          e: "e = concat (map pctOctet (utf8Octets (unat C))) @ e'"
          by (auto simp: prepend_def split: sum.splits)
        have lt: "unat C < 0x110000" using unat_cu_bound [of C] by simp
        from "2.IH"(3) [OF notU notT notL e' "2.prems"(2)]
          pctOctets_ascii [OF utf8Octets_bytes [OF lt]]
        show ?thesis by (simp add: e)
      qed
    qed
  qed
qed

lemma Encode_ascii_total: "list_all isAscii s \<Longrightarrow> \<exists>e. Encode U s = Inr e"
proof (induction s)
  case Nil
  then show ?case by simp
next
  case (Cons C s)
  then obtain e where e: "Encode U s = Inr e" by auto
  from Cons.prems have "\<not> isTrailingSurrogate C" "\<not> isLeadingSurrogate C"
    by (auto simp: isAscii_def isTrailingSurrogate_def isLeadingSurrogate_def
        word_le_nat_alt word_less_nat_alt)
  then show ?case
    by (simp add: e prepend_def)
qed

lemma encodeFragment_ascii: "encodeFragment s = Inr e \<Longrightarrow> list_all isAscii e"
  by (auto simp: encodeFragment_def encodeURI_def split: sum.splits
      intro: escapeExtra_all_ascii Encode_ascii_output)

lemma encodeFragment_again: "encodeFragment s = Inr e \<Longrightarrow> \<exists>e2. encodeFragment e = Inr e2"
  using Encode_ascii_total [OF encodeFragment_ascii, of s e encodeURIUnescapedSet]
  by (auto simp: encodeFragment_def encodeURI_def)

section \<open>Running the model on concrete inputs\<close>

text \<open>The definitions that the simplifier unfolds to run the model on a concrete input.\<close>

lemmas string_evals = js_def startsWith_def prepend_def
lemmas codec_evals =
  encodeFragment_def encodeURI_def encodeURIUnescapedSet_def uriReserved_def uriUnescaped_def
  isAlnum_def isLeadingSurrogate_def isTrailingSurrogate_def utf8Octets_def pctOctet_def hexDigit_def
  escapeExtra_def decodeURIComponent_def ParseHexOctet_def hexValue_def leadingOnes_def
  utf8CodePoint_def isContinuation_def UTF16EncodeCodePoint_def UTF16SurrogatePairToCodePoint_def
lemmas query_evals =
  checkRedirectFragment_def afterLastQuestionMark_def notLineTerminator_def URLSearchParams_def
  utf8Encode_def parseUrlencoded_def formDecode_def utf8Lead_def
lemmas binding_evals =
  effectiveFragment_def fromFirstHash_def matchesRemoteState_def isSchemeStart_def isSchemeChar_def
  decodePayload_def restoreLegacy_def restoreStandard_def tryBody_def finish_def updateFromUrlHash_def
  setUrlHash_def replaceState_def removeParameterFromUrl_def matchParameterAtEnd_def
lemmas test_evals =
  testEnv_def testParse_def testVerifyObject_def testReset_def testRestoreState_def newBinding_def

section \<open>Facts about fragments and their classification\<close>

lemma dropWhile_takeWhile_append:
  "\<not> P y \<Longrightarrow> dropWhile P (takeWhile P xs @ y # ys) = y # ys"
  by (induction xs) simp_all

lemma fromFirstHash_replaceState:
  "fromFirstHash (replaceState (0x23 # x) current) = 0x23 # x"
  by (simp add: fromFirstHash_def replaceState_def startsWith_def js_def dropWhile_takeWhile_append)

lemma encodeFragment_brace:
  assumes "encodeFragment (0x7B # p) = Inr e"
  shows "\<exists>e'. e = 0x25 # 0x37 # 0x42 # e'"
  using assms
  by (auto simp: codec_evals string_evals split: sum.splits)

lemma percent_not_remote: "\<not> matchesRemoteState (0x23 # 0x21 # 0x25 # x)"
  by (simp add: matchesRemoteState_def isSchemeStart_def)

lemma percent_not_legacy: "\<not> startsWith (0x23 # 0x21 # 0x25 # x) (js ''#!+'')"
  by (simp add: string_evals)

lemma bang_standard: "startsWith (0x23 # 0x21 # x) (js ''#!'')"
  by (simp add: string_evals)

lemma decodePayload_once: "encodeFragment p = Inr e \<Longrightarrow> decodePayload False e = Inr p"
  by (simp add: decodePayload_def decode_encodeFragment)

lemma decode_empty_object: "decodePayload False (js ''{}'') = Inr (js ''{}'')"
  by (simp add: string_evals codec_evals decodePayload_def)

lemma encode_empty_object: "encodeFragment (js ''{}'') = Inr (js ''%7B%7D'')"
  by (simp add: string_evals codec_evals)

lemma effectiveFragment_not_found:
  assumes "fst (checkRedirectFragment h) = False"
  shows "effectiveFragment h =
    (False, if fromFirstHash h = [] \<or> fromFirstHash h = js ''#'' \<or> fromFirstHash h = js ''#!''
            then js ''#!{}'' else fromFirstHash h)"
  using assms by (cases "checkRedirectFragment h") (simp add: effectiveFragment_def Let_def)

lemma hashchange_after_write:
  assumes cached: "getCachedJson env (root st) = (V, g)"
    and gen: "prevStateGeneration st \<noteq> Some g"
    and enc: "encodeFragment (JSON_stringify env V) = Inr e"
    and str: "prevStateString st \<noteq> Some e"
    and obj: "JSON_stringify env V = 0x7B # rest"
    and nf: "fst (checkRedirectFragment (href (fst (setUrlHash env st)))) = False"
  shows "snd (setUrlHash env st) = None"
    and "root (fst (setUrlHash env st)) = root st"
    and "prevStateString (fst (setUrlHash env st)) = Some e"
    and "JSON_stringify env V \<noteq> e"
    and "tryBody env (fst (setUrlHash env st))
          = restoreStandard env (fst (setUrlHash env st)) (JSON_stringify env V)"
proof -
  let ?text = "JSON_stringify env V"
  let ?st1 = "fst (setUrlHash env st)"
  let ?base = "replaceState (removeParameterFromUrl (href st) (js ''json_url'')) (href st)"
  have dec: "decodeURIComponent e = Inr ?text"
    using enc by (rule decode_encodeFragment)
  obtain e' where e: "e = 0x25 # 0x37 # 0x42 # e'"
    using encodeFragment_brace [of rest e] enc obj by auto
  show ne: "?text \<noteq> e" using obj e by simp
  have set: "setUrlHash env st =
      (st\<lparr>href := replaceState (if ?text = js ''{}'' then js ''#'' else js ''#!'' @ e) ?base,
          prevStateGeneration := Some g, prevStateString := Some e\<rparr>, None)"
    using cached gen enc str dec by (auto simp: setUrlHash_def Let_def)
  show "snd (setUrlHash env st) = None" and "root ?st1 = root st"
    and "prevStateString ?st1 = Some e"
    by (simp_all add: set)
  have frag: "fromFirstHash (href ?st1) = (if ?text = js ''{}'' then js ''#'' else js ''#!'' @ e)"
    by (simp add: set js_def fromFirstHash_replaceState)
  show "tryBody env ?st1 = restoreStandard env ?st1 ?text"
  proof (cases "?text = js ''{}''")
    case True
    have eff: "effectiveFragment (href ?st1) = (False, js ''#!{}'')"
      using frag True by (simp add: effectiveFragment_not_found [OF nf])
    have cls: "\<not> matchesRemoteState (js ''#!{}'')" "\<not> startsWith (js ''#!{}'') (js ''#!+'')"
      "startsWith (js ''#!{}'') (js ''#!'')"
      by (simp_all add: string_evals matchesRemoteState_def isSchemeStart_def)
    have "decodePayload False (drop 2 (js ''#!{}'')) = Inr (js ''{}'')"
      using decode_empty_object by (simp add: js_def)
    then show ?thesis
      using True by (simp add: tryBody_def eff cls)
  next
    case False
    have s: "js ''#!'' @ e = 0x23 # 0x21 # 0x25 # 0x37 # 0x42 # e'"
      by (simp add: e js_def)
    have eff: "effectiveFragment (href ?st1) = (False, js ''#!'' @ e)"
      using frag False by (simp add: effectiveFragment_not_found [OF nf]) (simp add: e js_def)
    have cls: "\<not> matchesRemoteState (js ''#!'' @ e)" "\<not> startsWith (js ''#!'' @ e) (js ''#!+'')"
      "startsWith (js ''#!'' @ e) (js ''#!'')"
      unfolding s by (rule percent_not_remote percent_not_legacy bang_standard)+
    have "decodePayload False (drop 2 (js ''#!'' @ e)) = Inr ?text"
      using decodePayload_once [OF enc] by (simp add: js_def)
    then show ?thesis
      by (simp add: tryBody_def eff cls)
  qed
qed

section \<open>The outbound path\<close>

text \<open>
  C4. A call of \<open>setUrlHash\<close> on a tree whose generation is the recorded one only strips
  \<open>json_url\<close> from the URL: nothing is serialized, the fragment is not written and both
  recorded fields stay. When the generation differs and the new encoding equals the recorded
  string, the recorded generation is updated and nothing else beyond the strip happens.
\<close>

theorem outbound_short_circuits:
  assumes "getCachedJson env (root st) = (v, g)"
  shows "(prevStateGeneration st = Some g \<longrightarrow>
            setUrlHash env st =
              (st\<lparr>href := replaceState (removeParameterFromUrl (href st) (js ''json_url'')) (href st)\<rparr>,
               None))
         \<and> (prevStateGeneration st \<noteq> Some g \<and> encodeFragment (JSON_stringify env v) = Inr e
              \<and> prevStateString st = Some e \<longrightarrow>
            setUrlHash env st =
              (st\<lparr>href := replaceState (removeParameterFromUrl (href st) (js ''json_url'')) (href st),
                  prevStateGeneration := Some g\<rparr>,
               None))"
  using assms by (auto simp: setUrlHash_def Let_def)

lemma written_eval:
  "written =
     \<lparr>root = \<lparr>treeValue = js ''{\"a\":1}'', generation = 0, calls = []\<rparr>,
      prevStateString = Some (js ''%7B%22a%22:1%7D''), prevStateGeneration = Some 0,
      parseError = None, href = js ''http://h/#!%7B%22a%22:1%7D'', loading = []\<rparr>"
  unfolding written_def
  by (simp add: string_evals codec_evals binding_evals test_evals)

lemma strip_written:
  "replaceState (removeParameterFromUrl (js ''http://h/#!%7B%22a%22:1%7D'') (js ''json_url''))
     (js ''http://h/#!%7B%22a%22:1%7D'') = js ''http://h/#!%7B%22a%22:1%7D''"
  by (simp add: string_evals binding_evals)

theorem outbound_short_circuits_witness:
  "getCachedJson testEnv (root written) = (js ''{\"a\":1}'', 0)
   \<and> prevStateGeneration written = Some 0
   \<and> setUrlHash testEnv written = (written, None)
   \<and> getCachedJson testEnv (root touched) = (js ''{\"a\":1}'', 5)
   \<and> prevStateGeneration touched \<noteq> Some 5
   \<and> encodeFragment (JSON_stringify testEnv (js ''{\"a\":1}'')) = Inr (js ''%7B%22a%22:1%7D'')
   \<and> prevStateString touched = Some (js ''%7B%22a%22:1%7D'')
   \<and> setUrlHash testEnv touched = (touched\<lparr>prevStateGeneration := Some 5\<rparr>, None)"
proof -
  have a1: "getCachedJson testEnv (root written) = (js ''{\"a\":1}'', 0)"
    by (simp add: written_eval testEnv_def)
  have a2: "prevStateGeneration written = Some 0"
    by (simp add: written_eval)
  have b1: "getCachedJson testEnv (root touched) = (js ''{\"a\":1}'', 5)"
    by (simp add: touched_def written_eval testEnv_def)
  have b2: "prevStateGeneration touched \<noteq> Some 5"
    by (simp add: touched_def written_eval)
  have b3: "encodeFragment (JSON_stringify testEnv (js ''{\"a\":1}'')) = Inr (js ''%7B%22a%22:1%7D'')"
    by (simp add: testEnv_def string_evals codec_evals)
  have b4: "prevStateString touched = Some (js ''%7B%22a%22:1%7D'')"
    by (simp add: touched_def written_eval)
  have hw: "href written = js ''http://h/#!%7B%22a%22:1%7D''"
    by (simp add: written_eval)
  have ht: "href touched = js ''http://h/#!%7B%22a%22:1%7D''"
    by (simp add: touched_def written_eval)
  from outbound_short_circuits [OF a1, of "js ''%7B%22a%22:1%7D''"] a2
  have A: "setUrlHash testEnv written = (written, None)"
    by (simp add: hw strip_written)
  from outbound_short_circuits [OF b1, of "js ''%7B%22a%22:1%7D''"] b2 b3 b4
  have B: "setUrlHash testEnv touched = (touched\<lparr>prevStateGeneration := Some 5\<rparr>, None)"
    by (simp add: ht strip_written)
  from a1 a2 A b1 b2 b3 b4 B show ?thesis by simp
qed

section \<open>The empty state\<close>

text \<open>
  C5. When \<open>setUrlHash\<close> writes a tree whose JSON text is \<open>{}\<close>, the fragment it leaves is
  \<open>#\<close> (and the recorded string is \<open>%7B%7D\<close>). Inbound, with no redirect fragment, each of
  the literal fragments \<open>''\<close>, \<open>#\<close> and \<open>#!\<close> is classified as \<open>#!{}\<close>: the standard branch
  runs on the decoded text \<open>{}\<close>, and unless \<open>{}\<close> is the recorded string the tree is reset
  and restored from what \<open>urlSafeParse\<close> returns for \<open>{}\<close>.
\<close>

theorem empty_state_canonical:
  "(getCachedJson env (root st) = (v, g) \<and> JSON_stringify env v = js ''{}''
      \<and> prevStateGeneration st \<noteq> Some g \<and> prevStateString st \<noteq> Some (js ''%7B%7D'')
    \<longrightarrow> snd (setUrlHash env st) = None
        \<and> fromFirstHash (href (fst (setUrlHash env st))) = js ''#''
        \<and> prevStateString (fst (setUrlHash env st)) = Some (js ''%7B%7D''))
   \<and> (fst (checkRedirectFragment (href st)) = False
      \<and> (fromFirstHash (href st) = [] \<or> fromFirstHash (href st) = js ''#''
           \<or> fromFirstHash (href st) = js ''#!'')
    \<longrightarrow> effectiveFragment (href st) = (False, js ''#!{}'')
        \<and> decodePayload False (drop 2 (js ''#!{}'')) = Inr (js ''{}'')
        \<and> tryBody env st = restoreStandard env st (js ''{}'')
        \<and> (prevStateString st \<noteq> Some (js ''{}'') \<and> urlSafeParse env (js ''{}'') = Inr obj
             \<and> verifyObject env obj = None
           \<longrightarrow> root (updateFromUrlHash env st) = fst (restoreState env (reset env (root st)) obj)))"
proof (intro conjI impI)
  assume a: "getCachedJson env (root st) = (v, g) \<and> JSON_stringify env v = js ''{}''
      \<and> prevStateGeneration st \<noteq> Some g \<and> prevStateString st \<noteq> Some (js ''%7B%7D'')"
  have dec: "decodeURIComponent (js ''%7B%7D'') = Inr (js ''{}'')"
    using decode_encodeFragment [OF encode_empty_object] .
  have hash: "js ''#'' = [0x23]" by (simp add: js_def)
  from a have set: "setUrlHash env st =
      (st\<lparr>href := replaceState (js ''#'') (replaceState (removeParameterFromUrl (href st) (js ''json_url'')) (href st)),
          prevStateGeneration := Some g, prevStateString := Some (js ''%7B%7D'')\<rparr>, None)"
    by (auto simp: setUrlHash_def Let_def encode_empty_object dec)
  show "snd (setUrlHash env st) = None" by (simp add: set)
  show "fromFirstHash (href (fst (setUrlHash env st))) = js ''#''"
    by (simp add: set) (simp add: hash fromFirstHash_replaceState)
  show "prevStateString (fst (setUrlHash env st)) = Some (js ''%7B%7D'')" by (simp add: set)
next
  assume b: "fst (checkRedirectFragment (href st)) = False
      \<and> (fromFirstHash (href st) = [] \<or> fromFirstHash (href st) = js ''#''
           \<or> fromFirstHash (href st) = js ''#!'')"
  then show eff: "effectiveFragment (href st) = (False, js ''#!{}'')"
    by (auto simp: effectiveFragment_def Let_def split: prod.splits)
  show dec: "decodePayload False (drop 2 (js ''#!{}'')) = Inr (js ''{}'')"
    using decode_empty_object by (simp add: js_def)
  have cls: "\<not> matchesRemoteState (js ''#!{}'')" "\<not> startsWith (js ''#!{}'') (js ''#!+'')"
    "startsWith (js ''#!{}'') (js ''#!'')"
    by (simp_all add: string_evals matchesRemoteState_def isSchemeStart_def)
  show body: "tryBody env st = restoreStandard env st (js ''{}'')"
    by (simp add: tryBody_def eff cls dec)
  assume c: "prevStateString st \<noteq> Some (js ''{}'') \<and> urlSafeParse env (js ''{}'') = Inr obj
             \<and> verifyObject env obj = None"
  then show "root (updateFromUrlHash env st) = fst (restoreState env (reset env (root st)) obj)"
    by (auto simp: updateFromUrlHash_def body restoreStandard_def finish_def Let_def
        split: prod.splits option.splits)
qed

lemma no_redirect_plain:
  "fst (checkRedirectFragment (js ''http://h/'')) = False"
  "fst (checkRedirectFragment (js ''http://h/#'')) = False"
  "fst (checkRedirectFragment (js ''http://h/#!'')) = False"
  by (simp_all add: string_evals codec_evals query_evals)

lemma fromFirstHash_plain:
  "fromFirstHash (js ''http://h/'') = []"
  "fromFirstHash (js ''http://h/#'') = js ''#''"
  "fromFirstHash (js ''http://h/#!'') = js ''#!''"
  by (simp_all add: string_evals fromFirstHash_def)

theorem empty_state_canonical_witness:
  "getCachedJson testEnv (root emptyTree) = (js ''{}'', 0)
   \<and> JSON_stringify testEnv (js ''{}'') = js ''{}''
   \<and> prevStateGeneration emptyTree \<noteq> Some 0
   \<and> prevStateString emptyTree \<noteq> Some (js ''%7B%7D'')
   \<and> href (fst (setUrlHash testEnv emptyTree)) = js ''http://h/#''
   \<and> fst (checkRedirectFragment (js ''http://h/'')) = False
   \<and> fromFirstHash (js ''http://h/'') = []
   \<and> fst (checkRedirectFragment (js ''http://h/#'')) = False
   \<and> fromFirstHash (js ''http://h/#'') = js ''#''
   \<and> fst (checkRedirectFragment (js ''http://h/#!'')) = False
   \<and> fromFirstHash (js ''http://h/#!'') = js ''#!''
   \<and> urlSafeParse testEnv (js ''{}'') = Inr (js ''{}'')
   \<and> verifyObject testEnv (js ''{}'') = None
   \<and> treeValue (root (updateFromUrlHash testEnv (newBinding (js ''http://h/'') (js ''{\"a\":1}'')))) = js ''{}''
   \<and> treeValue (root (updateFromUrlHash testEnv (newBinding (js ''http://h/#'') (js ''{\"a\":1}'')))) = js ''{}''
   \<and> treeValue (root (updateFromUrlHash testEnv (newBinding (js ''http://h/#!'') (js ''{\"a\":1}'')))) = js ''{}''"
proof -
  have o1: "getCachedJson testEnv (root emptyTree) = (js ''{}'', 0)"
    and o2: "JSON_stringify testEnv (js ''{}'') = js ''{}''"
    and o3: "prevStateGeneration emptyTree \<noteq> Some 0"
    and o4: "prevStateString emptyTree \<noteq> Some (js ''%7B%7D'')"
    by (simp_all add: emptyTree_def test_evals)
  have o5: "href (fst (setUrlHash testEnv emptyTree)) = js ''http://h/#''"
    unfolding emptyTree_def
    by (simp add: string_evals codec_evals binding_evals test_evals)
  have "fromFirstHash (href (fst (setUrlHash testEnv emptyTree))) = js ''#''"
    using empty_state_canonical [of testEnv emptyTree "js ''{}''" 0] o1 o2 o3 o4 by simp
  have p: "urlSafeParse testEnv (js ''{}'') = Inr (js ''{}'')"
    and v: "verifyObject testEnv (js ''{}'') = None"
    by (simp_all add: test_evals string_evals)
  have r: "treeValue (fst (restoreState testEnv (reset testEnv \<lparr>treeValue = js ''{\"a\":1}'', generation = 0, calls = []\<rparr>) (js ''{}''))) = js ''{}''"
    by (simp add: test_evals)
  have i1: "treeValue (root (updateFromUrlHash testEnv (newBinding (js ''http://h/'') (js ''{\"a\":1}'')))) = js ''{}''"
    using empty_state_canonical [of testEnv "newBinding (js ''http://h/'') (js ''{\"a\":1}'')" _ _ "js ''{}''"]
      no_redirect_plain fromFirstHash_plain p v r
    by (simp add: newBinding_def)
  have i2: "treeValue (root (updateFromUrlHash testEnv (newBinding (js ''http://h/#'') (js ''{\"a\":1}'')))) = js ''{}''"
    using empty_state_canonical [of testEnv "newBinding (js ''http://h/#'') (js ''{\"a\":1}'')" _ _ "js ''{}''"]
      no_redirect_plain fromFirstHash_plain p v r
    by (simp add: newBinding_def)
  have i3: "treeValue (root (updateFromUrlHash testEnv (newBinding (js ''http://h/#!'') (js ''{\"a\":1}'')))) = js ''{}''"
    using empty_state_canonical [of testEnv "newBinding (js ''http://h/#!'') (js ''{\"a\":1}'')" _ _ "js ''{}''"]
      no_redirect_plain fromFirstHash_plain p v r
    by (simp add: newBinding_def)
  from o1 o2 o3 o4 o5 no_redirect_plain fromFirstHash_plain p v i1 i2 i3
  show ?thesis by simp
qed

section \<open>Round trip\<close>



section \<open>The echo of an outbound write\<close>

text \<open>
  C1. The claim is that a \<open>hashchange\<close> on the URL that \<open>setUrlHash\<close> has just written takes
  the return of line 164. What the code does, for every tree whose JSON text starts with a
  brace: \<open>setUrlHash\<close> records the encoded string \<open>e\<close>, \<open>updateFromUrlHash\<close> decodes the fragment
  back to the JSON text and compares that with \<open>e\<close>; the two differ (\<open>e\<close> starts with \<open>%7B\<close>), so
  the return is not taken and the tree is reset, and restored when the text parses to an
  object.
\<close>

theorem echo_not_suppressed:
  assumes cached: "getCachedJson env (root st) = (V, g)"
    and gen: "prevStateGeneration st \<noteq> Some g"
    and enc: "encodeFragment (JSON_stringify env V) = Inr e"
    and str: "prevStateString st \<noteq> Some e"
    and obj: "JSON_stringify env V = 0x7B # rest"
    and nf: "fst (checkRedirectFragment (href (fst (setUrlHash env st)))) = False"
  shows "snd (setUrlHash env st) = None
    \<and> prevStateString (fst (setUrlHash env st)) = Some e
    \<and> decodePayload False e = Inr (JSON_stringify env V)
    \<and> JSON_stringify env V \<noteq> e
    \<and> fst (tryBody env (fst (setUrlHash env st))) \<noteq> Returned
    \<and> root (updateFromUrlHash env (fst (setUrlHash env st)))
        = (case urlSafeParse env (JSON_stringify env V) of
             Inl x \<Rightarrow> reset env (root st)
           | Inr v \<Rightarrow>
               (case verifyObject env v of
                  Some x \<Rightarrow> reset env (root st)
                | None \<Rightarrow> fst (restoreState env (reset env (root st)) v)))"
proof -
  note w = hashchange_after_write [OF cached gen enc str obj nf]
  have "fst (tryBody env (fst (setUrlHash env st))) \<noteq> Returned"
    using w(4)
    by (auto simp: w(5) restoreStandard_def w(3) Let_def split: sum.splits option.splits prod.splits)
  moreover have "root (updateFromUrlHash env (fst (setUrlHash env st)))
        = (case urlSafeParse env (JSON_stringify env V) of
             Inl x \<Rightarrow> reset env (root st)
           | Inr v \<Rightarrow>
               (case verifyObject env v of
                  Some x \<Rightarrow> reset env (root st)
                | None \<Rightarrow> fst (restoreState env (reset env (root st)) v)))"
    using w(4)
    by (auto simp: updateFromUrlHash_def w(5) restoreStandard_def w(3) w(2) finish_def Let_def
        split: sum.splits option.splits prod.splits)
  ultimately show ?thesis
    using w(1) w(3) w(4) decodePayload_once [OF enc] by simp
qed

theorem echo_not_suppressed_witness:
  "getCachedJson testEnv (root (newBinding (js ''http://h/?json_url=x'') (js ''{\"a\":1}''))) = (js ''{\"a\":1}'', 0)
   \<and> prevStateGeneration (newBinding (js ''http://h/?json_url=x'') (js ''{\"a\":1}'')) \<noteq> Some 0
   \<and> encodeFragment (JSON_stringify testEnv (js ''{\"a\":1}'')) = Inr (js ''%7B%22a%22:1%7D'')
   \<and> prevStateString (newBinding (js ''http://h/?json_url=x'') (js ''{\"a\":1}'')) \<noteq> Some (js ''%7B%22a%22:1%7D'')
   \<and> JSON_stringify testEnv (js ''{\"a\":1}'') = 0x7B # js ''\"a\":1}''
   \<and> fst (checkRedirectFragment (href written)) = False
   \<and> href written = js ''http://h/#!%7B%22a%22:1%7D''
   \<and> prevStateString written = Some (js ''%7B%22a%22:1%7D'')
   \<and> decodePayload False (js ''%7B%22a%22:1%7D'') = Inr (js ''{\"a\":1}'')
   \<and> fst (tryBody testEnv written) \<noteq> Returned
   \<and> calls (root written) = []
   \<and> calls (root (updateFromUrlHash testEnv written)) = [Reset, RestoreState (js ''{\"a\":1}'')]"
proof -
  let ?V = "js ''{\"a\":1}''"
  let ?e = "js ''%7B%22a%22:1%7D''"
  let ?st = "newBinding (js ''http://h/?json_url=x'') ?V"
  have h1: "getCachedJson testEnv (root ?st) = (?V, 0)"
    and h2: "prevStateGeneration ?st \<noteq> Some 0"
    and h4: "prevStateString ?st \<noteq> Some ?e"
    and h5: "JSON_stringify testEnv ?V = 0x7B # js ''\"a\":1}''"
    by (simp_all add: test_evals string_evals)
  have h3: "encodeFragment (JSON_stringify testEnv ?V) = Inr ?e"
    by (simp add: testEnv_def string_evals codec_evals)
  have h6: "fst (checkRedirectFragment (href written)) = False"
    by (simp add: written_eval) (simp add: string_evals codec_evals query_evals)
  have h6': "fst (checkRedirectFragment (href (fst (setUrlHash testEnv ?st)))) = False"
    using h6 by (simp add: written_def)
  have same: "JSON_stringify testEnv ?V = ?V"
    by (simp add: testEnv_def)
  have r: "(case urlSafeParse testEnv ?V of
             Inl x \<Rightarrow> reset testEnv (root ?st)
           | Inr v \<Rightarrow>
               (case verifyObject testEnv v of
                  Some x \<Rightarrow> reset testEnv (root ?st)
                | None \<Rightarrow> fst (restoreState testEnv (reset testEnv (root ?st)) v)))
      = \<lparr>treeValue = ?V, generation = 2, calls = [Reset, RestoreState ?V]\<rparr>"
    by (simp add: test_evals string_evals)
  from echo_not_suppressed [OF h1 h2 h3 h4 h5 h6']
  have "prevStateString written = Some ?e
    \<and> decodePayload False ?e = Inr ?V
    \<and> fst (tryBody testEnv written) \<noteq> Returned
    \<and> calls (root (updateFromUrlHash testEnv written)) = [Reset, RestoreState ?V]"
    by (simp add: written_def [symmetric] same r)
  moreover have "href written = js ''http://h/#!%7B%22a%22:1%7D''" "calls (root written) = []"
    by (simp_all add: written_eval)
  ultimately show ?thesis
    using h1 h2 h3 h4 h5 h6 by simp
qed

section \<open>The inbound path\<close>

text \<open>
  C7. The payload of a \<open>#!+\<close> or \<open>#!\<close> fragment goes through \<open>decodeURIComponent\<close> once when
  no redirect fragment was found and twice when one was. So a payload \<open>p\<close> that was encoded
  once is decoded to \<open>p\<close> without recovery, a payload encoded twice is decoded to \<open>p\<close> with
  recovery, and without recovery the payload encoded twice is decoded only to its single
  encoding, which is not \<open>p\<close> when encoding changes \<open>p\<close>, as it does for the text of a JSON
  object; the legacy and the standard branch then run on \<open>p\<close>. The payload is that of the
  effective fragment: the query value of \<open>redirect_fragment\<close> has been decoded once by
  \<open>URLSearchParams\<close> before. By \<open>encodeFragment_again\<close> the second encoding always exists.
\<close>

theorem conditional_double_decode:
  assumes "encodeFragment p = Inr e1" and "encodeFragment e1 = Inr e2"
  shows "decodePayload False e1 = Inr p \<and> decodePayload True e2 = Inr p
     \<and> decodePayload False e2 = Inr e1
     \<and> (e1 \<noteq> p \<longrightarrow> decodePayload False e2 \<noteq> Inr p)
     \<and> (p = 0x7B # rest \<longrightarrow> (decodePayload found e2 = Inr p) = found)
     \<and> (effectiveFragment (href st) = (False, js ''#!+'' @ e1)
          \<longrightarrow> tryBody env st = restoreLegacy env st p)
     \<and> (effectiveFragment (href st) = (True, js ''#!+'' @ e2)
          \<longrightarrow> tryBody env st = restoreLegacy env st p)
     \<and> (p = 0x7B # rest \<and> effectiveFragment (href st) = (False, js ''#!'' @ e1)
          \<longrightarrow> tryBody env st = restoreStandard env st p)
     \<and> (p = 0x7B # rest \<and> effectiveFragment (href st) = (True, js ''#!'' @ e2)
          \<longrightarrow> tryBody env st = restoreStandard env st p)"
proof -
  have d1: "decodeURIComponent e1 = Inr p" and d2: "decodeURIComponent e2 = Inr e1"
    using assms by (simp_all add: decode_encodeFragment)
  have once: "decodePayload False e1 = Inr p" and twice: "decodePayload True e2 = Inr p"
    and half: "decodePayload False e2 = Inr e1"
    by (simp_all add: decodePayload_def d1 d2)
  have std: "tryBody env st = restoreStandard env st p"
    if p: "p = 0x7B # rest" and eff: "effectiveFragment (href st) = (found, js ''#!'' @ e)"
      and dec: "decodePayload found e = Inr p" and e: "e = 0x25 # e'" for found e e'
  proof -
    have s: "js ''#!'' @ e = 0x23 # 0x21 # 0x25 # e'"
      by (simp add: e js_def)
    have cls: "\<not> matchesRemoteState (js ''#!'' @ e)" "\<not> startsWith (js ''#!'' @ e) (js ''#!+'')"
      "startsWith (js ''#!'' @ e) (js ''#!'')"
      unfolding s by (rule percent_not_remote percent_not_legacy bang_standard)+
    have "decodePayload found (drop 2 (js ''#!'' @ e)) = Inr p"
      using dec by (simp add: js_def)
    then show ?thesis
      by (simp add: tryBody_def eff cls)
  qed
  have e1: "\<exists>e'. e1 = 0x25 # e'" if "p = 0x7B # rest"
    using encodeFragment_brace [of rest e1] assms(1) that by auto
  have e2: "\<exists>e'. e2 = 0x25 # e'" if "p = 0x7B # rest"
  proof -
    from e1 [OF that] obtain e' where "e1 = 0x25 # e'" by blast
    with assms(2) show ?thesis
      by (auto simp: codec_evals string_evals split: sum.splits)
  qed
  show ?thesis
  proof (intro conjI impI)
    show "decodePayload False e1 = Inr p" by (rule once)
    show "decodePayload True e2 = Inr p" by (rule twice)
    show "decodePayload False e2 = Inr e1" by (rule half)
    show "decodePayload False e2 \<noteq> Inr p" if "e1 \<noteq> p"
      using that by (simp add: half)
    show "(decodePayload found e2 = Inr p) = found" if "p = 0x7B # rest"
      using e1 [OF that] that twice half by (cases found) auto
    show "tryBody env st = restoreLegacy env st p"
      if "effectiveFragment (href st) = (False, js ''#!+'' @ e1)"
      using that once
      by (simp add: tryBody_def string_evals matchesRemoteState_def isSchemeStart_def)
    show "tryBody env st = restoreLegacy env st p"
      if "effectiveFragment (href st) = (True, js ''#!+'' @ e2)"
      using that twice
      by (simp add: tryBody_def string_evals matchesRemoteState_def isSchemeStart_def)
    show "tryBody env st = restoreStandard env st p"
      if "p = 0x7B # rest \<and> effectiveFragment (href st) = (False, js ''#!'' @ e1)"
      using that e1 std [OF _ _ once] by blast
    show "tryBody env st = restoreStandard env st p"
      if "p = 0x7B # rest \<and> effectiveFragment (href st) = (True, js ''#!'' @ e2)"
      using that e2 std [OF _ _ twice] by blast
  qed
qed

lemma effectiveFragment_examples:
  "effectiveFragment (js ''http://h/#!+%7B%7D'') = (False, js ''#!+'' @ js ''%7B%7D'')"
  "effectiveFragment (js ''http://h/?redirect_fragment=!%2B%25257B%25257D'') = (True, js ''#!+'' @ js ''%257B%257D'')"
  "effectiveFragment (js ''http://h/#!%7B%7D'') = (False, js ''#!'' @ js ''%7B%7D'')"
  "effectiveFragment (js ''http://h/?redirect_fragment=!%25257B%25257D'') = (True, js ''#!'' @ js ''%257B%257D'')"
  by (simp_all add: string_evals codec_evals query_evals effectiveFragment_def fromFirstHash_def)

theorem conditional_double_decode_witness:
  "encodeFragment (js ''{}'') = Inr (js ''%7B%7D'')
   \<and> encodeFragment (js ''%7B%7D'') = Inr (js ''%257B%257D'')
   \<and> js ''%7B%7D'' \<noteq> js ''{}''
   \<and> js ''{}'' = 0x7B # js ''}''
   \<and> decodePayload False (js ''%7B%7D'') = Inr (js ''{}'')
   \<and> decodePayload True (js ''%257B%257D'') = Inr (js ''{}'')
   \<and> decodePayload False (js ''%257B%257D'') = Inr (js ''%7B%7D'')
   \<and> decodePayload False (js ''%257B%257D'') \<noteq> Inr (js ''{}'')
   \<and> (decodePayload True (js ''%257B%257D'') = Inr (js ''{}'')) = True
   \<and> tryBody testEnv (newBinding (js ''http://h/#!+%7B%7D'') (js ''{\"a\":1}''))
       = restoreLegacy testEnv (newBinding (js ''http://h/#!+%7B%7D'') (js ''{\"a\":1}'')) (js ''{}'')
   \<and> tryBody testEnv (newBinding (js ''http://h/?redirect_fragment=!%2B%25257B%25257D'') (js ''{\"a\":1}''))
       = restoreLegacy testEnv (newBinding (js ''http://h/?redirect_fragment=!%2B%25257B%25257D'') (js ''{\"a\":1}'')) (js ''{}'')
   \<and> tryBody testEnv (newBinding (js ''http://h/#!%7B%7D'') (js ''{\"a\":1}''))
       = restoreStandard testEnv (newBinding (js ''http://h/#!%7B%7D'') (js ''{\"a\":1}'')) (js ''{}'')
   \<and> tryBody testEnv (newBinding (js ''http://h/?redirect_fragment=!%25257B%25257D'') (js ''{\"a\":1}''))
       = restoreStandard testEnv (newBinding (js ''http://h/?redirect_fragment=!%25257B%25257D'') (js ''{\"a\":1}'')) (js ''{}'')"
proof -
  have enc1: "encodeFragment (js ''{}'') = Inr (js ''%7B%7D'')"
    and enc2: "encodeFragment (js ''%7B%7D'') = Inr (js ''%257B%257D'')"
    by (simp_all add: string_evals codec_evals)
  have ne: "js ''%7B%7D'' \<noteq> js ''{}''" and obj: "js ''{}'' = 0x7B # js ''}''"
    by (simp_all add: js_def)
  have href: "href (newBinding url v) = url" for url v
    by (simp add: newBinding_def)
  note t = conditional_double_decode [OF enc1 enc2, where env = testEnv and rest = "js ''}''"
      and found = True]
  from t [of "newBinding (js ''http://h/#!+%7B%7D'') (js ''{\"a\":1}'')"]
    t [of "newBinding (js ''http://h/?redirect_fragment=!%2B%25257B%25257D'') (js ''{\"a\":1}'')"]
    t [of "newBinding (js ''http://h/#!%7B%7D'') (js ''{\"a\":1}'')"]
    t [of "newBinding (js ''http://h/?redirect_fragment=!%25257B%25257D'') (js ''{\"a\":1}'')"]
    enc1 enc2 ne obj effectiveFragment_examples
  show ?thesis
    by (simp add: href)
qed

text \<open>
  C9. When \<open>updateFromUrlHash\<close> takes the standard branch and the decoded string is the
  recorded one, it returns inside the \<open>try\<close>: the whole state is unchanged, so an error of
  an earlier failed cycle stays in the error cell.
\<close>

theorem echo_leaves_parseError:
  assumes "effectiveFragment (href st) = (found, s)"
    and "\<not> matchesRemoteState s"
    and "\<not> startsWith s (js ''#!+'')"
    and "startsWith s (js ''#!'')"
    and "decodePayload found (drop 2 s) = Inr decoded"
    and "prevStateString st = Some decoded"
  shows "updateFromUrlHash env st = st"
  using assms
  by (simp add: updateFromUrlHash_def tryBody_def restoreStandard_def finish_def)

lemma failedOnce_eval:
  "failedOnce =
     \<lparr>root = \<lparr>treeValue = js ''{}'', generation = 1, calls = [Reset]\<rparr>,
      prevStateString = Some (js ''{''), prevStateGeneration = None, parseError = Some SyntaxError,
      href = js ''http://h/#!%7B'', loading = []\<rparr>"
  unfolding failedOnce_def
  by (simp add: string_evals codec_evals query_evals binding_evals test_evals)

theorem echo_leaves_parseError_witness:
  "effectiveFragment (href failedOnce) = (False, js ''#!%7B'')
   \<and> \<not> matchesRemoteState (js ''#!%7B'')
   \<and> \<not> startsWith (js ''#!%7B'') (js ''#!+'')
   \<and> startsWith (js ''#!%7B'') (js ''#!'')
   \<and> decodePayload False (drop 2 (js ''#!%7B'')) = Inr (js ''{'')
   \<and> prevStateString failedOnce = Some (js ''{'')
   \<and> parseError failedOnce = Some SyntaxError
   \<and> updateFromUrlHash testEnv failedOnce = failedOnce"
proof -
  have h1: "effectiveFragment (href failedOnce) = (False, js ''#!%7B'')"
    by (simp add: failedOnce_eval) (simp add: string_evals codec_evals query_evals binding_evals)
  have h2: "\<not> matchesRemoteState (js ''#!%7B'')"
    by (simp add: string_evals binding_evals)
  have h3: "\<not> startsWith (js ''#!%7B'') (js ''#!+'')"
    by (simp add: string_evals)
  have h4: "startsWith (js ''#!%7B'') (js ''#!'')"
    by (simp add: string_evals)
  have h5: "decodePayload False (drop 2 (js ''#!%7B'')) = Inr (js ''{'')"
    by (simp add: string_evals codec_evals binding_evals)
  have h6: "prevStateString failedOnce = Some (js ''{'')"
    by (simp add: failedOnce_eval)
  have h7: "parseError failedOnce = Some SyntaxError"
    by (simp add: failedOnce_eval)
  from echo_leaves_parseError [OF h1 h2 h3 h4 h5 h6, of testEnv] h1 h2 h3 h4 h5 h6 h7
  show ?thesis by simp
qed

text \<open>
  C10. When the query string has \<open>redirect_fragment\<close> with an empty value, the effective
  fragment is the bare \<open>#\<close>; the fallback to \<open>#!{}\<close> is not applied, no branch matches,
  and \<open>updateFromUrlHash\<close> sets the error cell to the error of line 172 and changes nothing
  else.
\<close>

theorem empty_redirect_fragment_is_malformed:
  assumes "map_of (URLSearchParams (afterLastQuestionMark (href st))) (js ''redirect_fragment'') = Some []"
  shows "checkRedirectFragment (href st) = (True, js ''#'')
         \<and> effectiveFragment (href st) = (True, js ''#'')
         \<and> updateFromUrlHash env st = st\<lparr>parseError := Some HashFormError\<rparr>"
  using assms
  by (simp add: checkRedirectFragment_def effectiveFragment_def updateFromUrlHash_def tryBody_def
      finish_def matchesRemoteState_def js_def startsWith_def)

theorem empty_redirect_fragment_is_malformed_witness:
  "map_of (URLSearchParams (afterLastQuestionMark (js ''http://h/?redirect_fragment=&x=1#!%7B%7D'')))
       (js ''redirect_fragment'') = Some []
   \<and> updateFromUrlHash testEnv (newBinding (js ''http://h/?redirect_fragment=&x=1#!%7B%7D'') (js ''{\"a\":1}''))
       = (newBinding (js ''http://h/?redirect_fragment=&x=1#!%7B%7D'') (js ''{\"a\":1}''))
           \<lparr>parseError := Some HashFormError\<rparr>
   \<and> calls (root (updateFromUrlHash testEnv
         (newBinding (js ''http://h/?redirect_fragment=&x=1#!%7B%7D'') (js ''{\"a\":1}'')))) = []"
proof -
  let ?url = "js ''http://h/?redirect_fragment=&x=1#!%7B%7D''"
  let ?st = "newBinding ?url (js ''{\"a\":1}'')"
  have href: "href ?st = ?url"
    by (simp add: newBinding_def)
  have h: "map_of (URLSearchParams (afterLastQuestionMark ?url)) (js ''redirect_fragment'') = Some []"
    by (simp add: string_evals codec_evals query_evals)
  from empty_redirect_fragment_is_malformed [of ?st testEnv] h href
  show ?thesis by (simp add: newBinding_def)
qed

text \<open>
  C2. The claim is that a failed \<open>updateFromUrlHash\<close> sets the error cell and leaves the tree
  as it was. What the code does on a fragment that is not a remote reference: in the
  standard branch, when \<open>urlSafeParse\<close> or \<open>verifyObject\<close> throws, the error cell is set and
  the tree has already been reset (and the decoded string recorded); a fragment of no known
  form, a payload that does not percent-decode, and a legacy payload that does not parse to
  an object set the error cell and leave everything else as it was.
\<close>

theorem reset_before_failed_parse:
  assumes eff: "effectiveFragment (href st) = (found, s)"
    and nr: "\<not> matchesRemoteState s"
  shows "(\<not> startsWith s (js ''#!+'') \<and> startsWith s (js ''#!'')
          \<and> decodePayload found (drop 2 s) = Inr d \<and> prevStateString st \<noteq> Some d
          \<and> (urlSafeParse env d = Inl e \<or> urlSafeParse env d = Inr v \<and> verifyObject env v = Some e)
        \<longrightarrow> updateFromUrlHash env st
              = st\<lparr>prevStateString := Some d, root := reset env (root st), parseError := Some e\<rparr>)
     \<and> (\<not> startsWith s (js ''#!+'') \<and> \<not> startsWith s (js ''#!'')
        \<longrightarrow> updateFromUrlHash env st = st\<lparr>parseError := Some HashFormError\<rparr>)
     \<and> (\<not> startsWith s (js ''#!+'') \<and> startsWith s (js ''#!'')
          \<and> decodePayload found (drop 2 s) = Inl e
        \<longrightarrow> updateFromUrlHash env st = st\<lparr>parseError := Some e\<rparr>)
     \<and> (startsWith s (js ''#!+'')
          \<and> (decodePayload found (drop 3 s) = Inl e
               \<or> decodePayload found (drop 3 s) = Inr d
                  \<and> (urlSafeParse env d = Inl e
                       \<or> urlSafeParse env d = Inr v \<and> verifyObject env v = Some e))
        \<longrightarrow> updateFromUrlHash env st = st\<lparr>parseError := Some e\<rparr>)"
  using eff nr
  by (auto simp: updateFromUrlHash_def tryBody_def restoreStandard_def restoreLegacy_def
      finish_def Let_def)

lemma effectiveFragment_failures:
  "effectiveFragment (js ''http://h/#!1'') = (False, js ''#!1'')"
  "effectiveFragment (js ''http://h/#!%7B'') = (False, js ''#!%7B'')"
  "effectiveFragment (js ''http://h/#not-a-bang-form'') = (False, js ''#not-a-bang-form'')"
  "effectiveFragment (js ''http://h/#!%'') = (False, js ''#!%'')"
  "effectiveFragment (js ''http://h/#!+%7B'') = (False, js ''#!+%7B'')"
  by (simp_all add: string_evals codec_evals query_evals effectiveFragment_def fromFirstHash_def)

lemma classify_failures:
  "\<not> matchesRemoteState (js ''#!1'')" "\<not> startsWith (js ''#!1'') (js ''#!+'')"
  "startsWith (js ''#!1'') (js ''#!'')"
  "\<not> matchesRemoteState (js ''#!%7B'')" "\<not> startsWith (js ''#!%7B'') (js ''#!+'')"
  "startsWith (js ''#!%7B'') (js ''#!'')"
  "\<not> matchesRemoteState (js ''#not-a-bang-form'')"
  "\<not> startsWith (js ''#not-a-bang-form'') (js ''#!+'')"
  "\<not> startsWith (js ''#not-a-bang-form'') (js ''#!'')"
  "\<not> matchesRemoteState (js ''#!%'')" "\<not> startsWith (js ''#!%'') (js ''#!+'')"
  "startsWith (js ''#!%'') (js ''#!'')"
  "\<not> matchesRemoteState (js ''#!+%7B'')" "startsWith (js ''#!+%7B'') (js ''#!+'')"
  by (simp_all add: string_evals matchesRemoteState_def isSchemeStart_def)

lemma decode_failures:
  "decodePayload False (drop 2 (js ''#!1'')) = Inr (js ''1'')"
  "decodePayload False (drop 2 (js ''#!%7B'')) = Inr (js ''{'')"
  "decodePayload False (drop 2 (js ''#!%'')) = Inl URIError"
  "decodePayload False (drop 3 (js ''#!+%7B'')) = Inr (js ''{'')"
  by (simp_all add: string_evals codec_evals decodePayload_def)

lemma parse_failures:
  "urlSafeParse testEnv (js ''1'') = Inr (js ''1'')" "verifyObject testEnv (js ''1'') = Some VerifyError"
  "urlSafeParse testEnv (js ''{'') = Inl SyntaxError"
  by (simp_all add: test_evals string_evals)

theorem reset_before_failed_parse_witness:
  "effectiveFragment (js ''http://h/#!1'') = (False, js ''#!1'')
   \<and> decodePayload False (drop 2 (js ''#!1'')) = Inr (js ''1'')
   \<and> urlSafeParse testEnv (js ''1'') = Inr (js ''1'') \<and> verifyObject testEnv (js ''1'') = Some VerifyError
   \<and> updateFromUrlHash testEnv (newBinding (js ''http://h/#!1'') (js ''{\"a\":1}''))
     = \<lparr>root = \<lparr>treeValue = js ''{}'', generation = 1, calls = [Reset]\<rparr>,
        prevStateString = Some (js ''1''), prevStateGeneration = None,
        parseError = Some VerifyError, href = js ''http://h/#!1'', loading = []\<rparr>
   \<and> effectiveFragment (js ''http://h/#!%7B'') = (False, js ''#!%7B'')
   \<and> decodePayload False (drop 2 (js ''#!%7B'')) = Inr (js ''{'')
   \<and> urlSafeParse testEnv (js ''{'') = Inl SyntaxError
   \<and> updateFromUrlHash testEnv (newBinding (js ''http://h/#!%7B'') (js ''{\"a\":1}''))
     = \<lparr>root = \<lparr>treeValue = js ''{}'', generation = 1, calls = [Reset]\<rparr>,
        prevStateString = Some (js ''{''), prevStateGeneration = None,
        parseError = Some SyntaxError, href = js ''http://h/#!%7B'', loading = []\<rparr>
   \<and> effectiveFragment (js ''http://h/#not-a-bang-form'') = (False, js ''#not-a-bang-form'')
   \<and> updateFromUrlHash testEnv (newBinding (js ''http://h/#not-a-bang-form'') (js ''{\"a\":1}''))
     = (newBinding (js ''http://h/#not-a-bang-form'') (js ''{\"a\":1}''))\<lparr>parseError := Some HashFormError\<rparr>
   \<and> effectiveFragment (js ''http://h/#!%'') = (False, js ''#!%'')
   \<and> decodePayload False (drop 2 (js ''#!%'')) = Inl URIError
   \<and> updateFromUrlHash testEnv (newBinding (js ''http://h/#!%'') (js ''{\"a\":1}''))
     = (newBinding (js ''http://h/#!%'') (js ''{\"a\":1}''))\<lparr>parseError := Some URIError\<rparr>
   \<and> effectiveFragment (js ''http://h/#!+%7B'') = (False, js ''#!+%7B'')
   \<and> decodePayload False (drop 3 (js ''#!+%7B'')) = Inr (js ''{'')
   \<and> updateFromUrlHash testEnv (newBinding (js ''http://h/#!+%7B'') (js ''{\"a\":1}''))
     = (newBinding (js ''http://h/#!+%7B'') (js ''{\"a\":1}''))\<lparr>parseError := Some SyntaxError\<rparr>"
proof -
  let ?V = "js ''{\"a\":1}''"
  note t = reset_before_failed_parse [where env = testEnv and found = False]
  from t [where st = "newBinding (js ''http://h/#!1'') ?V" and s = "js ''#!1''" and d = "js ''1''"
        and e = VerifyError and v = "js ''1''"]
    effectiveFragment_failures classify_failures decode_failures parse_failures
  have r1: "updateFromUrlHash testEnv (newBinding (js ''http://h/#!1'') ?V)
     = \<lparr>root = \<lparr>treeValue = js ''{}'', generation = 1, calls = [Reset]\<rparr>,
        prevStateString = Some (js ''1''), prevStateGeneration = None,
        parseError = Some VerifyError, href = js ''http://h/#!1'', loading = []\<rparr>"
    by (simp add: newBinding_def testEnv_def testReset_def)
  from t [where st = "newBinding (js ''http://h/#!%7B'') ?V" and s = "js ''#!%7B''" and d = "js ''{''"
        and e = SyntaxError]
    effectiveFragment_failures classify_failures decode_failures parse_failures
  have r2: "updateFromUrlHash testEnv (newBinding (js ''http://h/#!%7B'') ?V)
     = \<lparr>root = \<lparr>treeValue = js ''{}'', generation = 1, calls = [Reset]\<rparr>,
        prevStateString = Some (js ''{''), prevStateGeneration = None,
        parseError = Some SyntaxError, href = js ''http://h/#!%7B'', loading = []\<rparr>"
    by (simp add: newBinding_def testEnv_def testReset_def)
  from t [where st = "newBinding (js ''http://h/#not-a-bang-form'') ?V" and s = "js ''#not-a-bang-form''"]
    effectiveFragment_failures classify_failures
  have r3: "updateFromUrlHash testEnv (newBinding (js ''http://h/#not-a-bang-form'') ?V)
     = (newBinding (js ''http://h/#not-a-bang-form'') ?V)\<lparr>parseError := Some HashFormError\<rparr>"
    by (simp add: newBinding_def)
  from t [where st = "newBinding (js ''http://h/#!%'') ?V" and s = "js ''#!%''" and e = URIError]
    effectiveFragment_failures classify_failures decode_failures
  have r4: "updateFromUrlHash testEnv (newBinding (js ''http://h/#!%'') ?V)
     = (newBinding (js ''http://h/#!%'') ?V)\<lparr>parseError := Some URIError\<rparr>"
    by (simp add: newBinding_def)
  from t [where st = "newBinding (js ''http://h/#!+%7B'') ?V" and s = "js ''#!+%7B''" and d = "js ''{''"
        and e = SyntaxError]
    effectiveFragment_failures classify_failures decode_failures parse_failures
  have r5: "updateFromUrlHash testEnv (newBinding (js ''http://h/#!+%7B'') ?V)
     = (newBinding (js ''http://h/#!+%7B'') ?V)\<lparr>parseError := Some SyntaxError\<rparr>"
    by (simp add: newBinding_def)
  from r1 r2 r3 r4 r5 effectiveFragment_failures decode_failures parse_failures
  show ?thesis by simp
qed

section \<open>What the two recorded fields hold\<close>

text \<open>
  C3, as claimed: every operation updates \<open>prevStateString\<close> and \<open>prevStateGeneration\<close>
  together. A standard-form load changes the string and not the generation.
\<close>

theorem cursor_pair_counterexample:
  "\<not> updatedTogether (newBinding (js ''http://h/#!%7B%7D'') (js ''{\"a\":1}''))
        (updateFromUrlHash testEnv (newBinding (js ''http://h/#!%7B%7D'') (js ''{\"a\":1}'')))"
  by (simp add: updatedTogether_def string_evals codec_evals query_evals binding_evals test_evals)

lemma tryBody_prevStateGeneration:
  "prevStateGeneration (snd (tryBody env st)) = prevStateGeneration st"
  by (simp add: tryBody_def restoreLegacy_def restoreStandard_def Let_def
      split: prod.splits sum.splits option.splits)

text \<open>
  C3, amended. \<open>updateFromUrlHash\<close> never assigns \<open>prevStateGeneration\<close>. \<open>setUrlHash\<close> leaves
  \<open>prevStateGeneration\<close> at the generation of the tree; it leaves \<open>prevStateString\<close> alone
  when the generation or the encoding is the recorded one, and otherwise sets it to the new
  encoding, which is also the fragment it writes after \<open>#!\<close> (\<open>#\<close> alone for the empty
  object). When the body of \<open>updateFromUrlHash\<close> runs to its end, \<open>prevStateString\<close> is
  unchanged in the remote branch, cleared in the legacy branch, and the decoded payload in
  the standard branch.
\<close>

theorem cursor_pair_amended:
  "prevStateGeneration (updateFromUrlHash env st) = prevStateGeneration st
   \<and> (getCachedJson env (root st) = (v, g)
        \<longrightarrow> prevStateGeneration (fst (setUrlHash env st)) = Some g)
   \<and> (getCachedJson env (root st) = (v, g) \<and> encodeFragment (JSON_stringify env v) = Inr e
        \<and> (prevStateGeneration st = Some g \<or> prevStateString st = Some e)
        \<longrightarrow> prevStateString (fst (setUrlHash env st)) = prevStateString st)
   \<and> (getCachedJson env (root st) = (v, g) \<and> encodeFragment (JSON_stringify env v) = Inr e
        \<and> prevStateGeneration st \<noteq> Some g \<and> prevStateString st \<noteq> Some e
        \<longrightarrow> prevStateString (fst (setUrlHash env st)) = Some e
            \<and> fromFirstHash (href (fst (setUrlHash env st)))
                = (if JSON_stringify env v = js ''{}'' then js ''#'' else js ''#!'' @ e))
   \<and> (effectiveFragment (href st) = (found, s) \<and> tryBody env st = (Completed, st')
        \<longrightarrow> (if matchesRemoteState s then prevStateString st' = prevStateString st
             else if startsWith s (js ''#!+'') then prevStateString st' = None
             else decodePayload found (drop 2 s) = Inr d' \<longrightarrow> prevStateString st' = Some d'))"
proof (intro conjI impI)
  show "prevStateGeneration (updateFromUrlHash env st) = prevStateGeneration st"
    using tryBody_prevStateGeneration [of env st]
    by (cases "tryBody env st") (simp add: updateFromUrlHash_def finish_def split: outcome.splits)
next
  assume "getCachedJson env (root st) = (v, g)"
  then show "prevStateGeneration (fst (setUrlHash env st)) = Some g"
    by (auto simp: setUrlHash_def Let_def split: sum.splits)
next
  assume "getCachedJson env (root st) = (v, g) \<and> encodeFragment (JSON_stringify env v) = Inr e
        \<and> (prevStateGeneration st = Some g \<or> prevStateString st = Some e)"
  then show "prevStateString (fst (setUrlHash env st)) = prevStateString st"
    by (auto simp: setUrlHash_def Let_def split: sum.splits)
next
  assume a: "getCachedJson env (root st) = (v, g) \<and> encodeFragment (JSON_stringify env v) = Inr e
        \<and> prevStateGeneration st \<noteq> Some g \<and> prevStateString st \<noteq> Some e"
  then have dec: "decodeURIComponent e = Inr (JSON_stringify env v)"
    by (simp add: decode_encodeFragment)
  from a dec show "prevStateString (fst (setUrlHash env st)) = Some e"
    by (auto simp: setUrlHash_def Let_def)
  from a dec show "fromFirstHash (href (fst (setUrlHash env st)))
                = (if JSON_stringify env v = js ''{}'' then js ''#'' else js ''#!'' @ e)"
    by (auto simp: setUrlHash_def Let_def js_def fromFirstHash_replaceState)
next
  assume b: "effectiveFragment (href st) = (found, s) \<and> tryBody env st = (Completed, st')"
  show "if matchesRemoteState s then prevStateString st' = prevStateString st
        else if startsWith s (js ''#!+'') then prevStateString st' = None
        else decodePayload found (drop 2 s) = Inr d' \<longrightarrow> prevStateString st' = Some d'"
    using b
    by (auto simp: tryBody_def restoreLegacy_def restoreStandard_def Let_def
        split: prod.splits sum.splits option.splits if_splits)
qed

lemma loadsEmpty_tryBody:
  "tryBody testEnv loadsEmpty =
     (Completed,
      \<lparr>root = \<lparr>treeValue = js ''{}'', generation = 2, calls = [Reset, RestoreState (js ''{}'')]\<rparr>,
       prevStateString = Some (js ''{}''), prevStateGeneration = None, parseError = None,
       href = js ''http://h/#!%7B%7D'', loading = []\<rparr>)"
  unfolding loadsEmpty_def
  by (simp add: string_evals codec_evals query_evals binding_evals test_evals)

theorem cursor_pair_amended_witness:
  "getCachedJson testEnv (root (newBinding (js ''http://h/?json_url=x'') (js ''{\"a\":1}''))) = (js ''{\"a\":1}'', 0)
   \<and> encodeFragment (JSON_stringify testEnv (js ''{\"a\":1}'')) = Inr (js ''%7B%22a%22:1%7D'')
   \<and> prevStateGeneration (newBinding (js ''http://h/?json_url=x'') (js ''{\"a\":1}'')) \<noteq> Some 0
   \<and> prevStateString (newBinding (js ''http://h/?json_url=x'') (js ''{\"a\":1}'')) \<noteq> Some (js ''%7B%22a%22:1%7D'')
   \<and> prevStateGeneration written = Some 0
   \<and> prevStateString written = Some (js ''%7B%22a%22:1%7D'')
   \<and> fromFirstHash (href written) = js ''#!'' @ js ''%7B%22a%22:1%7D''
   \<and> getCachedJson testEnv (root touched) = (js ''{\"a\":1}'', 5)
   \<and> prevStateString touched = Some (js ''%7B%22a%22:1%7D'')
   \<and> prevStateGeneration (fst (setUrlHash testEnv touched)) = Some 5
   \<and> prevStateString (fst (setUrlHash testEnv touched)) = prevStateString touched
   \<and> effectiveFragment (href loadsEmpty) = (False, js ''#!%7B%7D'')
   \<and> fst (tryBody testEnv loadsEmpty) = Completed
   \<and> \<not> matchesRemoteState (js ''#!%7B%7D'')
   \<and> \<not> startsWith (js ''#!%7B%7D'') (js ''#!+'')
   \<and> decodePayload False (drop 2 (js ''#!%7B%7D'')) = Inr (js ''{}'')
   \<and> prevStateString (snd (tryBody testEnv loadsEmpty)) = Some (js ''{}'')
   \<and> prevStateGeneration (updateFromUrlHash testEnv loadsEmpty) = prevStateGeneration loadsEmpty"
proof -
  let ?V = "js ''{\"a\":1}''"
  let ?e = "js ''%7B%22a%22:1%7D''"
  let ?st = "newBinding (js ''http://h/?json_url=x'') ?V"
  have a1: "getCachedJson testEnv (root ?st) = (?V, 0)"
    and a3: "prevStateGeneration ?st \<noteq> Some 0"
    and a4: "prevStateString ?st \<noteq> Some ?e"
    by (simp_all add: test_evals)
  have a2: "encodeFragment (JSON_stringify testEnv ?V) = Inr ?e"
    by (simp add: testEnv_def string_evals codec_evals)
  have ne: "JSON_stringify testEnv ?V \<noteq> js ''{}''"
    by (simp add: testEnv_def js_def)
  from cursor_pair_amended [of testEnv ?st ?V 0 ?e] a1 a2 a3 a4 ne
  have A: "prevStateGeneration written = Some 0 \<and> prevStateString written = Some ?e
      \<and> fromFirstHash (href written) = js ''#!'' @ ?e"
    by (simp add: written_def)
  have b1: "getCachedJson testEnv (root touched) = (?V, 5)"
    and b2: "prevStateString touched = Some ?e"
    by (simp_all add: touched_def written_eval testEnv_def)
  from cursor_pair_amended [of testEnv touched ?V 5 ?e] b1 b2 a2
  have B: "prevStateGeneration (fst (setUrlHash testEnv touched)) = Some 5
      \<and> prevStateString (fst (setUrlHash testEnv touched)) = prevStateString touched"
    by simp
  have c1: "effectiveFragment (href loadsEmpty) = (False, js ''#!%7B%7D'')"
    unfolding loadsEmpty_def
    by (simp add: string_evals codec_evals query_evals effectiveFragment_def fromFirstHash_def newBinding_def)
  have c2: "\<not> matchesRemoteState (js ''#!%7B%7D'')" and c3: "\<not> startsWith (js ''#!%7B%7D'') (js ''#!+'')"
    by (simp_all add: string_evals matchesRemoteState_def isSchemeStart_def)
  have c4: "decodePayload False (drop 2 (js ''#!%7B%7D'')) = Inr (js ''{}'')"
    by (simp add: string_evals codec_evals decodePayload_def)
  from cursor_pair_amended [of testEnv loadsEmpty _ _ _ False "js ''#!%7B%7D''" "snd (tryBody testEnv loadsEmpty)" "js ''{}''"]
    c1 c2 c3 c4 loadsEmpty_tryBody
  have C: "prevStateString (snd (tryBody testEnv loadsEmpty)) = Some (js ''{}'')
      \<and> prevStateGeneration (updateFromUrlHash testEnv loadsEmpty) = prevStateGeneration loadsEmpty"
    by simp
  have c5: "fst (tryBody testEnv loadsEmpty) = Completed"
    by (simp add: loadsEmpty_tryBody)
  from a1 a2 a3 a4 A b1 b2 B c1 c2 c3 c4 c5 C show ?thesis
    by simp
qed

end
